theory Spec2Isabelle
  imports Complex_Main
begin

section \<open>Data model\<close>

text \<open>
  The client keeps one module-level object \<open>state\<close> with the fields \<open>files\<close>,
  \<open>capacity\<close>, \<open>totalSize\<close>, \<open>queue\<close> and (in \<open>static/js/app.js\<close>)
  \<open>preferences\<close>.  Two variants of the script are modelled: the table renderer
  \<open>static/js/app.js\<close> and the card renderer (the second source file); functions that
  are the same text in both are defined once, the others carry the suffix \<open>_card\<close>.

  Conventions of the embedding:
  \<^item> a property that may be absent, \<open>null\<close> or \<open>undefined\<close> is an \<open>option\<close>;
    a string is truthy when it is present and non-empty;
  \<^item> byte counts are whole numbers (\<open>int\<close>, \<open>nat\<close> for a \<open>File\<close>'s size); the
    total that the script adds up is a JavaScript number, so a double: \<open>jsint\<close> is a
    whole number that a double holds, or one of the infinities;
  \<^item> every function returns the new state together with the list of effects it has on
    the page, the network and the user, in program order;
  \<^item> what the environment answers (a server response, a \<open>confirm\<close> dialog) is an
    argument of the function that awaits it;
  \<^item> the German messages are written in ASCII (ae, oe, ue, ss for the umlauts).
\<close>

record file_record =
  file_id :: string
  file_name :: string
  file_size :: "int option"
  share_url :: "string option"
  share_raw_url :: "string option"
  share_token :: "string option"
  is_public :: bool

record preferences =
  hideMediaDefault :: bool
  copyUrlMode :: string

datatype jsint = Whole int | PlusInfinity | MinusInfinity

record app_state =
  files :: "file_record list"
  capacity :: int
  totalSize :: jsint
  queue :: "nat list"
  preferences :: preferences

datatype toast_type = InfoToast | SuccessToast | ErrorToast

datatype effect =
    ShowToast string toast_type
  | Fetch string string
  | XhrSend string string nat
  | Redirect string
  | CopyToClipboard string string
  | ConfirmDialog string
  | SetTimeout nat nat
  | RenderQueue
  | RenderFiles
  | UpdateStats
  | UpdateQueueVisual nat

text \<open>
  \<open>Fetch method url\<close> is a call of \<open>fetch\<close>; \<open>XhrSend method url r\<close> is
  \<open>xhr.send\<close> of the request opened for the queue item at reference \<open>r\<close>;
  \<open>SetTimeout r ms\<close> is the timer of \<open>scheduleQueueRemoval\<close>;
  \<open>CopyToClipboard text successMessage\<close> is \<open>copyToClipboard\<close> on a non-empty
  text; \<open>ConfirmDialog question\<close> is a call of \<open>confirm\<close>, whose answer is an
  argument of the function that asks.
\<close>

fun is_network :: "effect \<Rightarrow> bool" where
  "is_network (Fetch m u) = True"
| "is_network (XhrSend m u r) = True"
| "is_network e = False"

datatype 'a json_result = JsonError string | Json 'a

datatype 'a fetch_result = NetworkError string | Response nat "'a json_result"

text \<open>
  \<open>NetworkError m\<close>: the promise of \<open>fetch\<close> rejects with an error whose message is
  \<open>m\<close>.  \<open>Response status body\<close>: it resolves; \<open>body\<close> is what \<open>response.json()\<close>
  gives, \<open>JsonError m\<close> when it rejects and \<open>Json d\<close> when it resolves to the object
  \<open>d\<close>.
\<close>

definition ok :: "nat \<Rightarrow> bool" where
  "ok status_code = (200 \<le> status_code \<and> status_code < 300)"

definition truthy :: "string option \<Rightarrow> bool" where
  "truthy v = (case v of None \<Rightarrow> False | Some t \<Rightarrow> t \<noteq> [])"

definition or_else :: "string option \<Rightarrow> string \<Rightarrow> string" where
  "or_else v d = (case v of None \<Rightarrow> d | Some t \<Rightarrow> if t = [] then d else t)"

definition or_opt :: "string option \<Rightarrow> string option \<Rightarrow> string option" where
  "or_opt a b = (if truthy a then a else b)"

definition redirectToLogin :: "effect list" where
  "redirectToLogin = [Redirect ''/login'']"

definition handleUnauthorizedResponse :: "'a fetch_result \<Rightarrow> bool \<times> effect list" where
  "handleUnauthorizedResponse response =
     (case response of
        Response status_code body \<Rightarrow>
          if status_code = 401 then (True, redirectToLogin) else (False, [])
      | NetworkError m \<Rightarrow> (False, []))"

section \<open>File registry\<close>

fun findIndex :: "('a \<Rightarrow> bool) \<Rightarrow> 'a list \<Rightarrow> nat option" where
  "findIndex P [] = None"
| "findIndex P (x # xs) = (if P x then Some 0 else map_option Suc (findIndex P xs))"

text \<open>\<open>None\<close> is the \<open>-1\<close> of \<open>Array.prototype.findIndex\<close>.\<close>

definition size_or_0 :: "'a file_record_scheme \<Rightarrow> int" where
  "size_or_0 current = (case file_size current of None \<Rightarrow> 0 | Some n \<Rightarrow> n)"

text \<open>
  The \<open>+\<close> of the source adds doubles: the result is the double nearest to the exact
  sum, the one with the even significand on a tie, and an infinity from \<open>2^1024\<close> on.
  On whole numbers: up to \<open>2^53\<close> every whole number is a double; above, a double
  has 53 significant bits, and \<open>excess n\<close> is the number of low bits of \<open>n\<close> that
  do not fit.  \<open>js_add acc x\<close> is \<open>total + x\<close> for the running total \<open>acc\<close> and the size
  \<open>x\<close> of a record (a whole number that is a double).
\<close>

function excess :: "int \<Rightarrow> nat" where
  "excess n = (if n < 2 ^ 53 then 0 else Suc (excess (n div 2)))"
  by pat_completeness auto
termination
  by (relation "measure nat") auto

declare excess.simps [simp del]

definition round_double :: "int \<Rightarrow> jsint" where
  "round_double n =
     (if \<bar>n\<bar> \<le> 2 ^ 53 then Whole n
      else
        (let e = excess \<bar>n\<bar>;
             q = \<bar>n\<bar> div 2 ^ e;
             r = \<bar>n\<bar> mod 2 ^ e;
             q' = (if 2 * r < 2 ^ e then q
                   else if 2 * r > 2 ^ e then q + 1
                   else if even q then q else q + 1);
             m = q' * 2 ^ e
         in if 2 ^ 1024 \<le> m then (if n < 0 then MinusInfinity else PlusInfinity)
            else Whole (if n < 0 then - m else m)))"

definition js_add :: "jsint \<Rightarrow> int \<Rightarrow> jsint" where
  "js_add acc x =
     (case acc of
        Whole t \<Rightarrow> round_double (t + x)
      | PlusInfinity \<Rightarrow> PlusInfinity
      | MinusInfinity \<Rightarrow> MinusInfinity)"

definition insertOrUpdateFile ::
  "file_record \<Rightarrow> 'a app_state_scheme \<Rightarrow> 'a app_state_scheme" where
  "insertOrUpdateFile file s =
     (let fs = (case findIndex (\<lambda>entry. file_id entry = file_id file) (files s) of
                  Some existingIndex \<Rightarrow> (files s)[existingIndex := file]
                | None \<Rightarrow> file # files s)
      in s\<lparr>files := fs,
           totalSize :=
             foldl (\<lambda>total current. js_add total (size_or_0 current)) (Whole 0) fs\<rparr>)"

subsection \<open>Full refresh\<close>

record prefs_payload =
  hide_media_default :: bool
  copy_url_mode :: "string option"

record listing =
  listing_files :: "file_record list option"
  total_size :: "int option"
  listing_capacity :: "int option"
  listing_preferences :: "prefs_payload option"

text \<open>
  The body of \<open>GET /api/files\<close>.  \<open>hide_media_default\<close> is the value of
  \<open>Boolean(data.preferences.hide_media_default)\<close>.  The copies that \<open>refreshFiles\<close>
  writes to \<open>window.userPreferences\<close> and \<open>window.currentUser\<close> are outside the
  \<open>state\<close> object and are not modelled.
\<close>

definition apply_listing :: "listing \<Rightarrow> 'a app_state_scheme \<Rightarrow> 'a app_state_scheme" where
  "apply_listing data s =
     s\<lparr>files := (case listing_files data of None \<Rightarrow> [] | Some fs \<Rightarrow> fs),
       totalSize := (case total_size data of None \<Rightarrow> Whole 0 | Some n \<Rightarrow> Whole n),
       capacity := (case listing_capacity data of None \<Rightarrow> 0 | Some n \<Rightarrow> n),
       preferences :=
         (case listing_preferences data of
            None \<Rightarrow> preferences s
          | Some p \<Rightarrow>
              \<lparr>hideMediaDefault = hide_media_default p,
               copyUrlMode = or_else (copy_url_mode p) (copyUrlMode (preferences s))\<rparr>)\<rparr>"

definition apply_listing_card :: "listing \<Rightarrow> 'a app_state_scheme \<Rightarrow> 'a app_state_scheme" where
  "apply_listing_card data s =
     s\<lparr>files := (case listing_files data of None \<Rightarrow> [] | Some fs \<Rightarrow> fs),
       totalSize := (case total_size data of None \<Rightarrow> Whole 0 | Some n \<Rightarrow> Whole n),
       capacity := (case listing_capacity data of None \<Rightarrow> 0 | Some n \<Rightarrow> n)\<rparr>"

definition refreshFiles_resume ::
  "(listing \<Rightarrow> 'a app_state_scheme \<Rightarrow> 'a app_state_scheme) \<Rightarrow> bool \<Rightarrow> listing fetch_result
     \<Rightarrow> 'a app_state_scheme \<Rightarrow> 'a app_state_scheme \<times> effect list" where
  "refreshFiles_resume store showToastOnSuccess response s =
     (case response of
        NetworkError m \<Rightarrow>
          (s, [ShowToast (or_else (Some m) ''Die Dateiliste konnte nicht geladen werden.'')
                 ErrorToast])
      | Response status_code body \<Rightarrow>
          if fst (handleUnauthorizedResponse response)
          then (s, snd (handleUnauthorizedResponse response))
          else if \<not> ok status_code
          then (s, [ShowToast ''Fehler beim Laden der Dateien.'' ErrorToast])
          else (case body of
                  JsonError m \<Rightarrow>
                    (s, [ShowToast
                           (or_else (Some m) ''Die Dateiliste konnte nicht geladen werden.'')
                           ErrorToast])
                | Json data \<Rightarrow>
                    (store data s,
                     [RenderFiles, UpdateStats]
                       @ (if showToastOnSuccess
                          then [ShowToast ''Dateiliste aktualisiert.'' SuccessToast]
                          else []))))"

text \<open>
  \<open>refreshFiles_resume\<close> is \<open>refreshFiles\<close> from the point where \<open>await fetch\<close>
  returns; the two variants differ only in the assignments made from the body
  (\<open>store\<close>).  \<open>refreshFiles\<close> is the whole call, the request included.
\<close>

definition refreshFiles ::
  "bool \<Rightarrow> listing fetch_result \<Rightarrow> 'a app_state_scheme
     \<Rightarrow> 'a app_state_scheme \<times> effect list" where
  "refreshFiles showToastOnSuccess response s =
     (case refreshFiles_resume apply_listing showToastOnSuccess response s of
        (s', fx) \<Rightarrow> (s', Fetch ''GET'' ''/api/files'' # fx))"

definition refreshFiles_card ::
  "bool \<Rightarrow> listing fetch_result \<Rightarrow> 'a app_state_scheme
     \<Rightarrow> 'a app_state_scheme \<times> effect list" where
  "refreshFiles_card showToastOnSuccess response s =
     (case refreshFiles_resume apply_listing_card showToastOnSuccess response s of
        (s', fx) \<Rightarrow> (s', Fetch ''GET'' ''/api/files'' # fx))"

subsection \<open>Delete\<close>

record api_body =
  body_message :: "string option"
  body_share_url :: "string option"
  body_share_raw_url :: "string option"
  body_share_token :: "string option"

text \<open>
  The fields that the delete and share handlers read from a response body.
  \<open>error_text response\<close> is \<open>data.message\<close> after
  \<open>const data = await response.json().catch(() => ({}))\<close>.
\<close>

definition error_text :: "api_body json_result \<Rightarrow> string option" where
  "error_text body = (case body of JsonError m \<Rightarrow> None | Json data \<Rightarrow> body_message data)"

definition confirm_delete :: "'a file_record_scheme \<Rightarrow> effect" where
  "confirm_delete file =
     ConfirmDialog (''Moechtest du '' @ [CHR 0x22] @ file_name file @ [CHR 0x22]
                      @ '' endgueltig loeschen?'')"

definition deleteFile ::
  "string \<Rightarrow> bool \<Rightarrow> api_body fetch_result \<Rightarrow> 'a app_state_scheme
     \<Rightarrow> 'a app_state_scheme \<times> effect list" where
  "deleteFile fileId confirmed response s =
     (case find (\<lambda>entry. file_id entry = fileId) (files s) of
        None \<Rightarrow> (s, [ShowToast ''Datei wurde nicht gefunden.'' ErrorToast])
      | Some file \<Rightarrow>
          if \<not> confirmed then (s, [confirm_delete file])
          else
            (case response of
               NetworkError m \<Rightarrow>
                 (s, [confirm_delete file, Fetch ''DELETE'' (''/api/files/'' @ fileId),
                      ShowToast (or_else (Some m) ''Die Datei konnte nicht geloescht werden.'')
                        ErrorToast])
             | Response status_code body \<Rightarrow>
                 if fst (handleUnauthorizedResponse response)
                 then (s, [confirm_delete file, Fetch ''DELETE'' (''/api/files/'' @ fileId)]
                            @ snd (handleUnauthorizedResponse response))
                 else if \<not> ok status_code
                 then (s, [confirm_delete file, Fetch ''DELETE'' (''/api/files/'' @ fileId),
                           ShowToast
                             (or_else (error_text body)
                                ''Die Datei konnte nicht geloescht werden.'')
                             ErrorToast])
                 else (s\<lparr>files := filter (\<lambda>entry. file_id entry \<noteq> fileId) (files s)\<rparr>,
                       [confirm_delete file, Fetch ''DELETE'' (''/api/files/'' @ fileId),
                        RenderFiles, UpdateStats,
                        ShowToast ''Datei wurde geloescht.'' SuccessToast])))"

text \<open>
  The click handler of the delete button of a card (card variant).  \<open>file\<close> is the
  record the card was built from; \<open>refresh_response\<close> answers the request of the
  \<open>refreshFiles()\<close> that the handler awaits at its end.
\<close>

definition deleteHandler_card ::
  "file_record \<Rightarrow> bool \<Rightarrow> api_body fetch_result \<Rightarrow> listing fetch_result
     \<Rightarrow> 'a app_state_scheme \<Rightarrow> 'a app_state_scheme \<times> effect list" where
  "deleteHandler_card file confirmed response refresh_response s =
     (if \<not> confirmed then (s, [confirm_delete file])
      else
        (case response of
           NetworkError m \<Rightarrow>
             (s, [confirm_delete file, Fetch ''DELETE'' (''/api/files/'' @ file_id file),
                  ShowToast (or_else (Some m) ''Die Datei konnte nicht geloescht werden.'')
                    ErrorToast])
         | Response status_code body \<Rightarrow>
             if fst (handleUnauthorizedResponse response)
             then (s, [confirm_delete file, Fetch ''DELETE'' (''/api/files/'' @ file_id file)]
                        @ snd (handleUnauthorizedResponse response))
             else if \<not> ok status_code
             then (s, [confirm_delete file, Fetch ''DELETE'' (''/api/files/'' @ file_id file),
                       ShowToast
                         (or_else (error_text body) ''Die Datei konnte nicht geloescht werden.'')
                         ErrorToast])
             else
               (case refreshFiles_card False refresh_response
                       (s\<lparr>files :=
                            filter (\<lambda>entry. file_id entry \<noteq> file_id file) (files s)\<rparr>) of
                  (s', fx) \<Rightarrow>
                    (s', [confirm_delete file,
                          Fetch ''DELETE'' (''/api/files/'' @ file_id file),
                          ShowToast ''Datei wurde geloescht.'' SuccessToast] @ fx))))"

subsection \<open>Ensure-share-link\<close>

definition copyToClipboard :: "string option \<Rightarrow> string \<Rightarrow> effect list" where
  "copyToClipboard text successMessage =
     (case text of
        None \<Rightarrow> []
      | Some t \<Rightarrow> if t = [] then [] else [CopyToClipboard t successMessage])"

text \<open>
  \<open>ensureShareLink\<close> of \<open>static/js/app.js\<close>.  The result is \<open>Inl message\<close> when the
  function throws an \<open>Error\<close> with that message, \<open>Inr file\<close> when it returns.  The
  source changes the registry's own object \<open>file\<close> in place and then hands it to
  \<open>insertOrUpdateFile\<close>, which writes it to the first index whose record has that
  identifier: the index \<open>find\<close> took it from.  With records as values both steps are
  the one call of \<open>insertOrUpdateFile\<close> on the changed record.
\<close>

definition ensureShareLink ::
  "string \<Rightarrow> bool \<Rightarrow> api_body fetch_result \<Rightarrow> 'a app_state_scheme
     \<Rightarrow> (string + file_record) \<times> 'a app_state_scheme \<times> effect list" where
  "ensureShareLink fileId needsRawLink response s =
     (case find (\<lambda>entry. file_id entry = fileId) (files s) of
        None \<Rightarrow> (Inl ''Datei wurde nicht gefunden.'', s, [])
      | Some file \<Rightarrow>
          if truthy (share_url file) \<and> (\<not> needsRawLink \<or> truthy (share_raw_url file))
          then (Inr file, s, [])
          else
            (case response of
               NetworkError m \<Rightarrow>
                 (Inl m, s, [Fetch ''POST'' (''/api/files/'' @ fileId @ ''/share'')])
             | Response status_code body \<Rightarrow>
                 if fst (handleUnauthorizedResponse response)
                 then (Inl ''Authentifizierung erforderlich.'', s,
                       Fetch ''POST'' (''/api/files/'' @ fileId @ ''/share'')
                         # snd (handleUnauthorizedResponse response))
                 else if \<not> ok status_code
                 then (Inl (or_else (error_text body)
                              ''Der Freigabelink konnte nicht erstellt werden.''),
                       s, [Fetch ''POST'' (''/api/files/'' @ fileId @ ''/share'')])
                 else
                   (case body of
                      JsonError m \<Rightarrow>
                        (Inl m, s, [Fetch ''POST'' (''/api/files/'' @ fileId @ ''/share'')])
                    | Json data \<Rightarrow>
                        (let file' = file
                               \<lparr>share_url := body_share_url data,
                                share_raw_url :=
                                  or_opt (body_share_raw_url data) (body_share_url data),
                                share_token :=
                                  or_opt (body_share_token data) (share_token file),
                                is_public := True\<rparr>;
                             s' = insertOrUpdateFile file' s
                         in (Inr (case find (\<lambda>entry. file_id entry = fileId) (files s') of
                                    Some entry \<Rightarrow> entry
                                  | None \<Rightarrow> file'),
                             s',
                             [Fetch ''POST'' (''/api/files/'' @ fileId @ ''/share''),
                              RenderFiles, UpdateStats])))))"

text \<open>
  \<open>ensureShareLink\<close> of the card variant takes the card's record itself and returns
  nothing; the model returns the record as the call leaves it.  The writes to the
  card's input field and share area are page updates and are left out.
\<close>

definition ensureShareLink_card ::
  "file_record \<Rightarrow> api_body fetch_result \<Rightarrow> 'a app_state_scheme
     \<Rightarrow> file_record \<times> 'a app_state_scheme \<times> effect list" where
  "ensureShareLink_card file response s =
     (if truthy (share_url file)
      then (file, s,
            copyToClipboard (share_url file)
              ''Freigabelink wurde in die Zwischenablage kopiert.'')
      else
        (case response of
           NetworkError m \<Rightarrow>
             (file, s,
              [Fetch ''POST'' (''/api/files/'' @ file_id file @ ''/share''),
               ShowToast (or_else (Some m) ''Der Freigabelink konnte nicht erstellt werden.'')
                 ErrorToast])
         | Response status_code body \<Rightarrow>
             if fst (handleUnauthorizedResponse response)
             then (file, s,
                   Fetch ''POST'' (''/api/files/'' @ file_id file @ ''/share'')
                     # snd (handleUnauthorizedResponse response))
             else if \<not> ok status_code
             then (file, s,
                   [Fetch ''POST'' (''/api/files/'' @ file_id file @ ''/share''),
                    ShowToast
                      (or_else (error_text body)
                         ''Der Freigabelink konnte nicht erstellt werden.'')
                      ErrorToast])
             else
               (case body of
                  JsonError m \<Rightarrow>
                    (file, s,
                     [Fetch ''POST'' (''/api/files/'' @ file_id file @ ''/share''),
                      ShowToast
                        (or_else (Some m) ''Der Freigabelink konnte nicht erstellt werden.'')
                        ErrorToast])
                | Json data \<Rightarrow>
                    (let file' = file
                           \<lparr>share_url := body_share_url data,
                            share_raw_url := or_opt (body_share_raw_url data) None\<rparr>
                     in (file', insertOrUpdateFile file' s,
                         [Fetch ''POST'' (''/api/files/'' @ file_id file @ ''/share''),
                          UpdateStats, RenderFiles]
                           @ copyToClipboard (share_url file')
                               ''Freigabelink erstellt und kopiert.'')))))"

section \<open>Upload queue\<close>

text \<open>
  A queue item is a JavaScript object that \<open>state.queue\<close> and the closures of its
  upload request, of its removal timer and of its row's remove button all refer to.
  The objects live in a store (\<open>heap\<close>) under references; \<open>queue\<close> is the list of
  references in \<open>state.queue\<close>.  Beside the program's own state the record holds what
  the browser keeps for it: the requests that have been sent and have not completed
  (\<open>inflight\<close>), the removal timers that have not fired (\<open>timers\<close>) and the listing
  requests that have not been answered (\<open>fetching\<close>, each with its
  \<open>showToastOnSuccess\<close> flag).  The \<open>element\<close> field of an item is a handle into the
  page and is left out.  File descriptors are well-formed objects, so that the toasts
  and the redrawing of the page, which are effects here, do not throw.
\<close>

datatype status = Pending | Uploading | Success | Error

datatype jsnum = NaN | PosInfinity | NegInfinity | Finite real

record upload_file =
  upload_name :: string
  upload_size :: nat

record queue_item =
  item_id :: string
  item_file :: upload_file
  status :: status
  progress :: jsnum
  message :: string

record world = app_state +
  heap :: "nat \<Rightarrow> queue_item option"
  next_ref :: nat
  inflight :: "nat list"
  timers :: "nat list"
  fetching :: "bool list"

definition MAX_FILE_SIZE :: nat where
  "MAX_FILE_SIZE = 500 * 1024 * 1024"

definition status_at :: "world \<Rightarrow> nat \<Rightarrow> status option" where
  "status_at w r = map_option status (heap w r)"

definition item_id_at :: "world \<Rightarrow> nat \<Rightarrow> string option" where
  "item_id_at w r = map_option item_id (heap w r)"

definition update_item :: "nat \<Rightarrow> (queue_item \<Rightarrow> queue_item) \<Rightarrow> world \<Rightarrow> world" where
  "update_item r f w = w\<lparr>heap := (heap w)(r := map_option f (heap w r))\<rparr>"

definition quoted :: "string \<Rightarrow> string" where
  "quoted t = [CHR 0x22] @ t @ [CHR 0x22]"

function string_of_nat :: "nat \<Rightarrow> string" where
  "string_of_nat n =
     (if n < 10 then [''0123456789'' ! n]
      else string_of_nat (n div 10) @ [''0123456789'' ! (n mod 10)])"
  by pat_completeness auto
termination
  by (relation "measure id") auto

declare string_of_nat.simps [simp del]

subsection \<open>Add\<close>

definition new_item :: "string \<Rightarrow> upload_file \<Rightarrow> queue_item" where
  "new_item i f =
     \<lparr>item_id = i, item_file = f, status = Pending, progress = Finite 0,
      message = ''Bereit fuer Upload''\<rparr>"

text \<open>
  \<open>add_files\<close> is the \<open>forEach\<close> of \<open>addFilesToQueue\<close>; it returns the state, the
  number of files it added and the toasts it showed.  \<open>fresh_id r\<close> is the value of
  \<open>`${Date.now()}-${Math.random().toString(16).slice(2)}`\<close> when the item stored at
  reference \<open>r\<close> is created.
\<close>

fun add_files ::
  "(nat \<Rightarrow> string) \<Rightarrow> upload_file list \<Rightarrow> world \<Rightarrow> world \<times> nat \<times> effect list" where
  "add_files fresh_id [] w = (w, 0, [])"
| "add_files fresh_id (f # rest) w =
     (if upload_size f > MAX_FILE_SIZE
      then (case add_files fresh_id rest w of
              (w', addedCount, fx) \<Rightarrow>
                (w', addedCount,
                 ShowToast (quoted (upload_name f)
                              @ '' ist groesser als 500 MB und wurde uebersprungen.'')
                   ErrorToast # fx))
      else (case add_files fresh_id rest
                   (w\<lparr>heap := (heap w)(next_ref w \<mapsto> new_item (fresh_id (next_ref w)) f),
                      queue := queue w @ [next_ref w],
                      next_ref := Suc (next_ref w)\<rparr>) of
              (w', addedCount, fx) \<Rightarrow> (w', addedCount + 1, fx)))"

definition addFilesToQueue ::
  "(nat \<Rightarrow> string) \<Rightarrow> upload_file list \<Rightarrow> world \<Rightarrow> world \<times> effect list" where
  "addFilesToQueue fresh_id fileList w =
     (if fileList = [] then (w, [])
      else (case add_files fresh_id fileList w of
              (w', addedCount, fx) \<Rightarrow>
                (w', fx @ [RenderQueue]
                       @ (if addedCount > 0
                          then [ShowToast
                                  (string_of_nat addedCount
                                     @ '' Datei(en) hinzugefuegt. Starte den Upload, wenn du bereit bist.'')
                                  SuccessToast]
                          else []))))"

text \<open>
  For the statements about \<open>addFilesToQueue\<close>: the candidates of at most 500 MiB, in
  their order, and the toast shown for a candidate above it.
\<close>

definition accepted :: "upload_file list \<Rightarrow> upload_file list" where
  "accepted fl = filter (\<lambda>f. upload_size f \<le> 500 * 1024 * 1024) fl"

definition oversize_toast :: "upload_file \<Rightarrow> effect" where
  "oversize_toast f =
     ShowToast ([CHR 0x22] @ upload_name f @ [CHR 0x22]
                  @ '' ist groesser als 500 MB und wurde uebersprungen.'') ErrorToast"

subsection \<open>Per-item upload attempt\<close>

definition uploadQueueItem :: "nat \<Rightarrow> world \<Rightarrow> world \<times> effect list" where
  "uploadQueueItem r w =
     ((update_item r
         (\<lambda>item. item\<lparr>status := Uploading, progress := Finite 0,
                       message := ''Upload laeuft...''\<rparr>) w)
        \<lparr>inflight := inflight w @ [r]\<rparr>,
      [UpdateQueueVisual r, XhrSend ''POST'' ''/api/upload'' r])"

text \<open>The three assignments at the head of \<open>uploadQueueItem\<close>, for the statements.\<close>

definition begin_upload :: "queue_item \<Rightarrow> queue_item" where
  "begin_upload item =
     item\<lparr>status := Uploading, progress := Finite 0, message := ''Upload laeuft...''\<rparr>"

definition percent :: "nat \<Rightarrow> nat \<Rightarrow> jsnum" where
  "percent loaded whole =
     (if whole = 0 then (if loaded = 0 then NaN else PosInfinity)
      else Finite (real loaded / real whole * 100))"

text \<open>\<open>percent loaded whole\<close> is \<open>(event.loaded / event.total) * 100\<close>.\<close>

definition onProgress :: "nat \<Rightarrow> bool \<Rightarrow> nat \<Rightarrow> nat \<Rightarrow> world \<Rightarrow> world \<times> effect list" where
  "onProgress r lengthComputable loaded whole w =
     (if lengthComputable
      then (update_item r (\<lambda>item. item\<lparr>progress := percent loaded whole\<rparr>) w,
            [UpdateQueueVisual r])
      else (w, []))"

record upload_response =
  response_files :: "file_record list option"
  response_message :: "string option"

definition uploadedFile :: "upload_response \<Rightarrow> file_record option" where
  "uploadedFile response =
     (case response_files response of
        None \<Rightarrow> None
      | Some fs \<Rightarrow> (case fs of [] \<Rightarrow> None | f # rest \<Rightarrow> Some f))"

definition scheduleQueueRemoval :: "nat \<Rightarrow> world \<Rightarrow> world \<times> effect list" where
  "scheduleQueueRemoval r w = (w\<lparr>timers := timers w @ [r]\<rparr>, [SetTimeout r 4000])"

text \<open>
  The \<open>load\<close> handler of the request of item \<open>r\<close>.  \<open>parsed\<close> is what
  \<open>JSON.parse(xhr.responseText || "{}")\<close> gives: \<open>JsonError\<close> when it throws,
  which the handler catches.  A call of \<open>refreshFiles()\<close> that is not awaited shows
  here as the request it sends; its answer is an event of its own.
\<close>

definition onLoad ::
  "nat \<Rightarrow> nat \<Rightarrow> upload_response json_result \<Rightarrow> world \<Rightarrow> world \<times> effect list" where
  "onLoad r status_code parsed w =
     (if status_code = 401 then (w, redirectToLogin)
      else
        (case parsed of
           JsonError m \<Rightarrow>
             (update_item r
                (\<lambda>item. item\<lparr>status := Error,
                              message := ''Der Upload ist fehlgeschlagen.''\<rparr>) w,
              [UpdateQueueVisual r, ShowToast ''Der Upload ist fehlgeschlagen.'' ErrorToast])
         | Json response \<Rightarrow>
             if 200 \<le> status_code \<and> status_code < 300
             then
               (let w1 = update_item r
                           (\<lambda>item. item\<lparr>status := Success, progress := Finite 100,
                                         message := ''Upload abgeschlossen.''\<rparr>) w;
                    fx1 = [UpdateQueueVisual r,
                           ShowToast
                             (quoted (case heap w r of
                                        None \<Rightarrow> []
                                      | Some item \<Rightarrow> upload_name (item_file item))
                                @ '' wurde erfolgreich hochgeladen.'')
                             SuccessToast]
                in case uploadedFile response of
                     Some f \<Rightarrow>
                       (case scheduleQueueRemoval r (insertOrUpdateFile f w1) of
                          (w2, fx2) \<Rightarrow> (w2, fx1 @ [UpdateStats, RenderFiles] @ fx2))
                   | None \<Rightarrow>
                       (case scheduleQueueRemoval r
                               (w1\<lparr>fetching := fetching w1 @ [False]\<rparr>) of
                          (w2, fx2) \<Rightarrow>
                            (w2, fx1 @ [Fetch ''GET'' ''/api/files''] @ fx2)))
             else
               (update_item r
                  (\<lambda>item. item\<lparr>status := Error,
                                message := or_else (response_message response)
                                             ''Der Upload ist fehlgeschlagen.''\<rparr>) w,
                [UpdateQueueVisual r,
                 ShowToast
                   (or_else (response_message response) ''Der Upload ist fehlgeschlagen.'')
                   ErrorToast])))"

definition onError :: "nat \<Rightarrow> world \<Rightarrow> world \<times> effect list" where
  "onError r w =
     (update_item r
        (\<lambda>item. item\<lparr>status := Error, message := ''Netzwerkfehler beim Upload.''\<rparr>) w,
      [UpdateQueueVisual r, ShowToast ''Netzwerkfehler beim Upload.'' ErrorToast])"

text \<open>The callback of the timer set by \<open>scheduleQueueRemoval\<close> for item \<open>r\<close>.\<close>

definition onRemovalTimer :: "nat \<Rightarrow> world \<Rightarrow> world \<times> effect list" where
  "onRemovalTimer r w =
     (case findIndex (\<lambda>entry. item_id_at w entry = item_id_at w r) (queue w) of
        None \<Rightarrow> (w, [])
      | Some index \<Rightarrow>
          if status_at w (queue w ! index) = Some Success
          then (w\<lparr>queue := take index (queue w) @ drop (Suc index) (queue w)\<rparr>,
                [RenderQueue])
          else (w, []))"

subsection \<open>Remove and start\<close>

text \<open>The click handler of the remove button in the row of item \<open>r\<close>.\<close>

definition onRemoveClick :: "nat \<Rightarrow> world \<Rightarrow> world \<times> effect list" where
  "onRemoveClick r w =
     (if status_at w r \<noteq> Some Pending
      then (w, [ShowToast ''Nur wartende Dateien koennen entfernt werden.'' InfoToast])
      else (w\<lparr>queue := filter (\<lambda>queueItem. item_id_at w queueItem \<noteq> item_id_at w r)
                          (queue w)\<rparr>,
            [RenderQueue]))"

text \<open>
  \<open>upload_pending\<close> is the \<open>forEach\<close> of the start button's handler over the
  items of \<open>state.queue\<close>.
\<close>

fun upload_pending :: "nat list \<Rightarrow> world \<Rightarrow> world \<times> effect list" where
  "upload_pending [] w = (w, [])"
| "upload_pending (item # rest) w =
     (if status_at w item = Some Pending
      then (case uploadQueueItem item w of
              (w1, fx1) \<Rightarrow>
                (case upload_pending rest w1 of (w2, fx2) \<Rightarrow> (w2, fx1 @ fx2)))
      else upload_pending rest w)"

definition onStartUpload :: "world \<Rightarrow> world \<times> effect list" where
  "onStartUpload w =
     (let hasPending = list_ex (\<lambda>item. status_at w item = Some Pending) (queue w)
      in if \<not> hasPending
         then (w, [ShowToast ''Keine Dateien in der Warteschlange.'' InfoToast])
         else upload_pending (queue w) w)"

subsection \<open>Events\<close>

text \<open>
  What can happen to the page, one event at a time (the script runs on one thread).
  \<open>fire\<close> is \<open>None\<close> when the browser cannot deliver the event: a progress, load or
  error event needs a request in flight for that item, and load and error end the
  request; a removal timer fires once; a remove button exists for the items in the
  queue; a listing answer needs an open listing request (it is handled as in
  \<open>static/js/app.js\<close>; the card variant differs only in not storing preferences).
\<close>

datatype event =
    AddFiles "nat \<Rightarrow> string" "upload_file list"
  | StartUploadClick
  | XhrProgress nat bool nat nat
  | XhrLoad nat nat "upload_response json_result"
  | XhrError nat
  | RemovalTimer nat
  | RemoveClick nat
  | RefreshClick
  | ListingArrived nat "listing fetch_result"

fun fire :: "event \<Rightarrow> world \<Rightarrow> (world \<times> effect list) option" where
  "fire (AddFiles fresh_id fileList) w = Some (addFilesToQueue fresh_id fileList w)"
| "fire StartUploadClick w = Some (onStartUpload w)"
| "fire (XhrProgress r lengthComputable loaded whole) w =
     (if r \<in> set (inflight w) then Some (onProgress r lengthComputable loaded whole w)
      else None)"
| "fire (XhrLoad r status_code parsed) w =
     (if r \<in> set (inflight w)
      then Some (onLoad r status_code parsed (w\<lparr>inflight := remove1 r (inflight w)\<rparr>))
      else None)"
| "fire (XhrError r) w =
     (if r \<in> set (inflight w)
      then Some (onError r (w\<lparr>inflight := remove1 r (inflight w)\<rparr>))
      else None)"
| "fire (RemovalTimer r) w =
     (if r \<in> set (timers w)
      then Some (onRemovalTimer r (w\<lparr>timers := remove1 r (timers w)\<rparr>))
      else None)"
| "fire (RemoveClick r) w =
     (if r \<in> set (queue w) then Some (onRemoveClick r w) else None)"
| "fire RefreshClick w =
     Some (w\<lparr>fetching := fetching w @ [True]\<rparr>, [Fetch ''GET'' ''/api/files''])"
| "fire (ListingArrived i response) w =
     (if i < length (fetching w)
      then Some (refreshFiles_resume apply_listing (fetching w ! i) response
                   (w\<lparr>fetching := take i (fetching w) @ drop (Suc i) (fetching w)\<rparr>))
      else None)"

fun run :: "event list \<Rightarrow> world \<Rightarrow> world option" where
  "run [] w = Some w"
| "run (e # es) w = (case fire e w of None \<Rightarrow> None | Some (w', fx) \<Rightarrow> run es w')"

text \<open>The page before any file has been added: no queue item exists.\<close>

definition initial :: "world \<Rightarrow> bool" where
  "initial w \<longleftrightarrow>
     queue w = [] \<and> heap w = Map.empty \<and> inflight w = [] \<and> timers w = []"

subsection \<open>Status transitions\<close>

text \<open>
  \<open>allowed a b\<close>: an item whose status is \<open>a\<close> may have status \<open>b\<close> after one
  event, on the path \<open>pending\<close>, \<open>uploading\<close>, then \<open>success\<close> or \<open>error\<close>.
  \<open>queue_inv\<close> is what every reachable state satisfies: an item has at most one
  request in flight, an item with a request in flight is \<open>uploading\<close>, and no
  reference at or above \<open>next_ref\<close> is in use.
\<close>

definition allowed :: "status \<Rightarrow> status \<Rightarrow> bool" where
  "allowed a b \<longleftrightarrow>
     a = b \<or> (a = Pending \<and> b = Uploading) \<or> (a = Uploading \<and> (b = Success \<or> b = Error))"

definition queue_inv :: "world \<Rightarrow> bool" where
  "queue_inv w \<longleftrightarrow>
     distinct (inflight w)
     \<and> (\<forall>r \<in> set (inflight w). status_at w r = Some Uploading)
     \<and> (\<forall>r. next_ref w \<le> r \<longrightarrow> heap w r = None)"

section \<open>Formatting byte counts\<close>

text \<open>
  \<open>formatBytes\<close> works on a JavaScript number (\<open>jsnum\<close>).  \<open>Math.log\<close>, the
  division and \<open>Math.floor\<close> are taken on the real numbers; \<open>pow1024\<close> is
  \<open>Math.pow(1024, exponent)\<close> for a whole exponent; \<open>unit_at exponent\<close> is the text
  that the template puts for \<open>units[exponent]\<close>, which is \<open>undefined\<close> outside the
  table.  \<open>toFixed\<close> is \<open>Number.prototype.toFixed\<close> for a value that is not
  negative: the nearest multiple of \<open>10^-fractionDigits\<close>, the larger one on a tie,
  in decimal digits; from \<open>10^21\<close> on the source prints the number as \<open>String\<close>
  does, which is the argument \<open>toString\<close>.
\<close>

definition units :: "string list" where
  "units = [''B'', ''KB'', ''MB'', ''GB'', ''TB'']"

definition unit_at :: "int \<Rightarrow> string" where
  "unit_at exponent =
     (if 0 \<le> exponent \<and> exponent < int (length units) then units ! nat exponent
      else ''undefined'')"

definition pow1024 :: "int \<Rightarrow> real" where
  "pow1024 exponent = (if 0 \<le> exponent then 1024 ^ nat exponent else 1 / 1024 ^ nat (- exponent))"

definition exponent_of :: "real \<Rightarrow> int" where
  "exponent_of bytes = min \<lfloor>ln bytes / ln 1024\<rfloor> (int (length units) - 1)"

definition toFixed :: "(real \<Rightarrow> string) \<Rightarrow> real \<Rightarrow> nat \<Rightarrow> string" where
  "toFixed toString x fractionDigits =
     (if 10 ^ 21 \<le> x then toString x
      else
        (let n = nat \<lfloor>x * 10 ^ fractionDigits + 1 / 2\<rfloor>;
             whole = string_of_nat (n div 10 ^ fractionDigits);
             frac = string_of_nat (n mod 10 ^ fractionDigits)
         in if fractionDigits = 0 then whole
            else whole @ ''.'' @ replicate (fractionDigits - length frac) (CHR ''0'') @ frac))"

text \<open>The local \<open>value\<close> of the source is \<open>val\<close> here.\<close>

definition formatBytes :: "(real \<Rightarrow> string) \<Rightarrow> jsnum \<Rightarrow> string" where
  "formatBytes toString bytes =
     (case bytes of
        Finite b \<Rightarrow>
          if b \<le> 0 then ''0 B''
          else
            (let exponent = exponent_of b;
                 val = b / pow1024 exponent
             in toFixed toString val (if val \<ge> 10 \<or> exponent = 0 then 0 else 1)
                  @ '' '' @ unit_at exponent)
      | _ \<Rightarrow> ''0 B'')"

section \<open>Sample data\<close>

text \<open>Concrete records and states on which the theorems below are instantiated.\<close>

definition sample_file :: file_record where
  "sample_file =
     \<lparr>file_id = ''f1'', file_name = ''a.txt'', file_size = Some 10, share_url = None,
      share_raw_url = None, share_token = None, is_public = False\<rparr>"

definition sample_shared :: file_record where
  "sample_shared =
     \<lparr>file_id = ''f1'', file_name = ''a.txt'', file_size = Some 10,
      share_url = Some ''/s/abc'', share_raw_url = Some ''/s/abc'',
      share_token = Some ''abc'', is_public = True\<rparr>"

definition sample_state :: "file_record list \<Rightarrow> app_state" where
  "sample_state fs =
     \<lparr>files = fs, capacity = 100, totalSize = Whole 10, queue = [],
      preferences = \<lparr>hideMediaDefault = False, copyUrlMode = ''view''\<rparr>\<rparr>"

definition sample_huge :: file_record where
  "sample_huge =
     \<lparr>file_id = ''f2'', file_name = ''huge.bin'', file_size = Some 9007199254740992,
      share_url = None, share_raw_url = None, share_token = None, is_public = False\<rparr>"

definition sample_byte :: file_record where
  "sample_byte =
     \<lparr>file_id = ''f3'', file_name = ''one.bin'', file_size = Some 1,
      share_url = None, share_raw_url = None, share_token = None, is_public = False\<rparr>"

definition sample_share_body :: api_body where
  "sample_share_body =
     \<lparr>body_message = None, body_share_url = Some ''/s/abc'', body_share_raw_url = None,
      body_share_token = Some ''abc''\<rparr>"

definition empty_body :: api_body where
  "empty_body =
     \<lparr>body_message = None, body_share_url = None, body_share_raw_url = None,
      body_share_token = None\<rparr>"

definition sample_world :: world where
  "sample_world =
     \<lparr>files = [], capacity = 100, totalSize = Whole 0, queue = [],
      preferences = \<lparr>hideMediaDefault = False, copyUrlMode = ''view''\<rparr>,
      heap = Map.empty, next_ref = 0, inflight = [], timers = [], fetching = []\<rparr>"

definition sample_fresh :: "nat \<Rightarrow> string" where
  "sample_fresh r = ''id'' @ string_of_nat r"

definition sample_big :: upload_file where
  "sample_big = \<lparr>upload_name = ''big.iso'', upload_size = 524288001\<rparr>"

definition sample_small :: upload_file where
  "sample_small = \<lparr>upload_name = ''small.txt'', upload_size = 524288000\<rparr>"

definition sample_item :: "status \<Rightarrow> real \<Rightarrow> string \<Rightarrow> queue_item" where
  "sample_item st p m =
     \<lparr>item_id = ''id0'', item_file = sample_small, status = st, progress = Finite p,
      message = m\<rparr>"

definition sample_added :: world where
  "sample_added =
     sample_world
       \<lparr>heap := [0 \<mapsto> sample_item Pending 0 ''Bereit fuer Upload''],
        queue := [0], next_ref := 1\<rparr>"

definition sample_uploading :: world where
  "sample_uploading =
     sample_added
       \<lparr>heap := [0 \<mapsto> sample_item Uploading 0 ''Upload laeuft...''], inflight := [0]\<rparr>"

definition sample_failed :: world where
  "sample_failed =
     sample_uploading
       \<lparr>heap := [0 \<mapsto> sample_item Error 0 ''Der Upload ist fehlgeschlagen.''],
        inflight := []\<rparr>"

section \<open>Insert-or-update keeps the total size exact\<close>

lemma findIndex_None: "findIndex P xs = None \<longleftrightarrow> (\<forall>x \<in> set xs. \<not> P x)"
  by (induction xs) auto

lemma findIndex_Some:
  "findIndex P xs = Some i \<Longrightarrow>
     i < length xs \<and> P (xs ! i)"
  by (induction xs arbitrary: i) (auto split: if_splits)

lemma findIndex_update_same:
  "findIndex P xs = Some i \<Longrightarrow> P y \<Longrightarrow> findIndex P (xs[i := y]) = Some i"
  by (induction xs arbitrary: i) (auto split: if_splits)

lemma update_at_takeWhile:
  "findIndex P xs = Some i \<Longrightarrow>
     xs[i := y] = takeWhile (\<lambda>x. \<not> P x) xs @ y # tl (dropWhile (\<lambda>x. \<not> P x) xs)"
  by (induction xs arbitrary: i) (auto split: if_splits)

lemma round_double_small: "\<bar>n\<bar> \<le> 2 ^ 53 \<Longrightarrow> round_double n = Whole n"
  by (simp add: round_double_def)

lemma foldl_total_exact:
  "0 \<le> a \<Longrightarrow> \<forall>e \<in> set fs. 0 \<le> size_or_0 e \<Longrightarrow>
   a + sum_list (map size_or_0 fs) \<le> 2 ^ 53 \<Longrightarrow>
   foldl (\<lambda>total current. js_add total (size_or_0 current)) (Whole a) fs
     = Whole (a + sum_list (map size_or_0 fs))"
proof (induction fs arbitrary: a)
  case Nil
  then show ?case by simp
next
  case (Cons x xs)
  have rest: "0 \<le> sum_list (map size_or_0 xs)"
    using Cons.prems(2) by (intro sum_list_nonneg) auto
  have x: "0 \<le> size_or_0 x"
    using Cons.prems(2) by simp
  have "\<bar>a + size_or_0 x\<bar> \<le> 2 ^ 53"
    using Cons.prems(1,3) rest x by simp
  then have step: "js_add (Whole a) (size_or_0 x) = Whole (a + size_or_0 x)"
    by (simp add: js_add_def round_double_small)
  have "foldl (\<lambda>total current. js_add total (size_or_0 current)) (Whole (a + size_or_0 x)) xs
          = Whole (a + size_or_0 x + sum_list (map size_or_0 xs))"
    using Cons.prems x by (intro Cons.IH) (simp_all add: add.assoc)
  with step show ?case
    by (simp add: add.assoc)
qed

lemma files_insertOrUpdateFile:
  "files (insertOrUpdateFile f s) =
     (if file_id f \<in> file_id ` set (files s)
      then takeWhile (\<lambda>e. file_id e \<noteq> file_id f) (files s)
             @ f # tl (dropWhile (\<lambda>e. file_id e \<noteq> file_id f) (files s))
      else f # files s)"
proof (cases "findIndex (\<lambda>entry. file_id entry = file_id f) (files s)")
  case None
  then have "file_id f \<notin> file_id ` set (files s)"
    by (auto simp: findIndex_None)
  with None show ?thesis
    by (simp add: insertOrUpdateFile_def Let_def)
next
  case (Some i)
  then have "files s ! i \<in> set (files s)" and "file_id (files s ! i) = file_id f"
    using findIndex_Some [OF Some] by auto
  then have "file_id f \<in> file_id ` set (files s)"
    by (metis imageI)
  with Some show ?thesis
    using update_at_takeWhile [OF Some, of f]
    by (simp add: insertOrUpdateFile_def Let_def)
qed

lemma totalSize_insertOrUpdateFile:
  assumes "\<forall>e \<in> set (files (insertOrUpdateFile f s)). 0 \<le> size_or_0 e"
    and "sum_list (map size_or_0 (files (insertOrUpdateFile f s))) \<le> 2 ^ 53"
  shows "totalSize (insertOrUpdateFile f s)
           = Whole (sum_list (map size_or_0 (files (insertOrUpdateFile f s))))"
proof -
  have "totalSize (insertOrUpdateFile f s)
          = foldl (\<lambda>total current. js_add total (size_or_0 current)) (Whole 0)
              (files (insertOrUpdateFile f s))"
    by (simp add: insertOrUpdateFile_def Let_def)
  also have "\<dots> = Whole (0 + sum_list (map size_or_0 (files (insertOrUpdateFile f s))))"
    using assms by (intro foldl_total_exact) simp_all
  finally show ?thesis by simp
qed

lemma insertOrUpdateFile_twice:
  "insertOrUpdateFile f (insertOrUpdateFile f s) = insertOrUpdateFile f s"
proof (cases "findIndex (\<lambda>entry. file_id entry = file_id f) (files s)")
  case None
  then show ?thesis
    by (simp add: insertOrUpdateFile_def Let_def)
next
  case (Some i)
  then have "i < length (files s)"
    by (simp add: findIndex_Some)
  with Some show ?thesis
    by (simp add: insertOrUpdateFile_def Let_def findIndex_update_same)
qed

lemma excess_2_53_1: "excess 9007199254740993 = 1"
  by (simp add: excess.simps [of 9007199254740993] excess.simps [of 4503599627370496])

text \<open>
  C5, as the claim states it, fails when the sum needs more than 53 bits: putting a
  file of \<open>2^53\<close> bytes in front of a registry that holds one file of 1 byte, the
  addition \<open>2^53 + 1\<close> is a tie between two doubles and gives \<open>2^53\<close>, one less than
  the sum of the sizes.
\<close>

theorem insertOrUpdateFile_total_rounds:
  "files (insertOrUpdateFile sample_huge (sample_state [sample_byte]))
     = [sample_huge, sample_byte]
   \<and> totalSize (insertOrUpdateFile sample_huge (sample_state [sample_byte]))
     = Whole 9007199254740992
   \<and> sum_list (map size_or_0
        (files (insertOrUpdateFile sample_huge (sample_state [sample_byte]))))
     = 9007199254740993"
  by (simp add: insertOrUpdateFile_def Let_def sample_state_def sample_huge_def
        sample_byte_def size_or_0_def js_add_def round_double_def excess_2_53_1)

text \<open>
  C5, amended.  \<open>insertOrUpdateFile\<close> replaces the first record that has the
  identifier of the given descriptor when there is one (the records before and after it
  stay where they are) and otherwise puts the descriptor in front of the registry;
  running it again on the result with the same descriptor changes nothing, so the
  recomputed total is the same; and when afterwards no record has a negative size and
  the sizes (a missing size counting 0) add up to at most \<open>2^53\<close>, \<open>totalSize\<close> is
  exactly that sum.
\<close>

theorem insertOrUpdateFile_total:
  "files (insertOrUpdateFile f s) =
     (if file_id f \<in> file_id ` set (files s)
      then takeWhile (\<lambda>e. file_id e \<noteq> file_id f) (files s)
             @ f # tl (dropWhile (\<lambda>e. file_id e \<noteq> file_id f) (files s))
      else f # files s)
   \<and> insertOrUpdateFile f (insertOrUpdateFile f s) = insertOrUpdateFile f s
   \<and> ((\<forall>e \<in> set (files (insertOrUpdateFile f s)). 0 \<le> size_or_0 e)
        \<and> sum_list (map size_or_0 (files (insertOrUpdateFile f s))) \<le> 2 ^ 53
      \<longrightarrow> totalSize (insertOrUpdateFile f s)
            = Whole (sum_list (map size_or_0 (files (insertOrUpdateFile f s)))))"
  using files_insertOrUpdateFile [of f s] totalSize_insertOrUpdateFile [of f s]
    insertOrUpdateFile_twice [of f s]
  by simp

theorem insertOrUpdateFile_total_witness:
  "files (insertOrUpdateFile sample_shared (sample_state [sample_byte, sample_file]))
     = [sample_byte, sample_shared]
   \<and> 0 \<le> size_or_0 sample_byte \<and> 0 \<le> size_or_0 sample_shared
   \<and> sum_list (map size_or_0 [sample_byte, sample_shared]) \<le> 2 ^ 53
   \<and> totalSize (insertOrUpdateFile sample_shared (sample_state [sample_byte, sample_file]))
     = Whole 11"
  using insertOrUpdateFile_total [of sample_shared "sample_state [sample_byte, sample_file]"]
  by (simp add: sample_state_def sample_shared_def sample_file_def sample_byte_def
        size_or_0_def)

section \<open>Ensure-share-link makes no request when a link is present\<close>

lemma find_update_at:
  "findIndex P xs = Some i \<Longrightarrow> P y \<Longrightarrow> find P (xs[i := y]) = Some y"
  by (induction xs arbitrary: i) (auto split: if_splits)

lemma find_insertOrUpdateFile:
  "find (\<lambda>entry. file_id entry = file_id f) (files (insertOrUpdateFile f s)) = Some f"
proof (cases "findIndex (\<lambda>entry. file_id entry = file_id f) (files s)")
  case None
  then show ?thesis by (simp add: insertOrUpdateFile_def Let_def)
next
  case (Some i)
  then show ?thesis
    using find_update_at [OF Some, of f]
    by (simp add: insertOrUpdateFile_def Let_def)
qed

lemma find_Some_id:
  "find (\<lambda>entry. file_id entry = fileId) fs = Some file \<Longrightarrow> file_id file = fileId"
  by (induction fs) (auto split: if_splits)

lemma truthy_or_opt: "truthy b \<Longrightarrow> truthy (or_opt a b)"
  by (simp add: or_opt_def)

lemma ensureShareLink_present:
  assumes "find (\<lambda>entry. file_id entry = fileId) (files s) = Some file"
    and "truthy (share_url file)"
    and "needsRawLink \<longrightarrow> truthy (share_raw_url file)"
  shows "ensureShareLink fileId needsRawLink response s = (Inr file, s, [])"
  using assms by (auto simp: ensureShareLink_def)

lemma ensureShareLink_after_success:
  assumes run: "ensureShareLink fileId needsRawLink response s = (Inr file', s', fx)"
    and usable: "truthy (share_url file')"
  shows "ensureShareLink fileId needsRawLink response' s' = (Inr file', s', [])"
proof (cases "find (\<lambda>entry. file_id entry = fileId) (files s)")
  case None
  with run show ?thesis by (simp add: ensureShareLink_def)
next
  case (Some rec0)
  note found = Some
  have fid: "file_id rec0 = fileId"
    using found by (rule find_Some_id)
  show ?thesis
  proof (cases "truthy (share_url rec0) \<and> (\<not> needsRawLink \<or> truthy (share_raw_url rec0))")
    case True
    with run found have "file' = rec0" "s' = s"
      by (auto simp: ensureShareLink_def)
    with True found show ?thesis
      by (auto simp: ensureShareLink_present)
  next
    case False
    with run found obtain status_code data where
      resp: "response = Response status_code (Json data)"
      by (auto simp: ensureShareLink_def split: fetch_result.splits json_result.splits if_splits)
    define g where "g = rec0\<lparr>share_url := body_share_url data,
        share_raw_url := or_opt (body_share_raw_url data) (body_share_url data),
        share_token := or_opt (body_share_token data) (share_token rec0),
        is_public := True\<rparr>"
    have gid: "file_id g = fileId"
      using fid by (simp add: g_def)
    have s': "s' = insertOrUpdateFile g s"
      using run found False resp
      by (auto simp: ensureShareLink_def Let_def g_def split: if_splits)
    have fnd: "find (\<lambda>entry. file_id entry = fileId) (files s') = Some g"
      using find_insertOrUpdateFile [of g s] gid s' by simp
    have "file' = g"
      using run found False resp fnd s'
      by (auto simp: ensureShareLink_def Let_def g_def split: if_splits)
    with usable have "truthy (share_url g)" by simp
    moreover from this have "truthy (share_raw_url g)"
      by (simp add: g_def truthy_or_opt)
    ultimately show ?thesis
      using fnd \<open>file' = g\<close> by (simp add: ensureShareLink_present)
  qed
qed

lemma ensureShareLink_card_present:
  assumes "truthy (share_url file)"
  shows "ensureShareLink_card file response s
    = (file, s, [CopyToClipboard (the (share_url file))
                   ''Freigabelink wurde in die Zwischenablage kopiert.''])"
  using assms by (auto simp: ensureShareLink_card_def copyToClipboard_def truthy_def split: option.splits)

text \<open>
  C1.  When the registry record of \<open>fileId\<close> already has a non-empty \<open>share_url\<close>
  (and a non-empty \<open>share_raw_url\<close> if the raw link is needed),
  \<open>ensureShareLink\<close> returns that record, leaves the state as it is and has no effect
  at all, so no request; called again on the state it returned it does the same.  The
  card variant, given a record with a non-empty \<open>share_url\<close>, leaves record and
  state as they are and sends no request (it copies the link).  And whenever a call of
  \<open>ensureShareLink\<close> has returned a record with a non-empty \<open>share_url\<close>, whether
  it had to ask the server or not, the next call returns the same record, the same
  state and has no effect.
\<close>

theorem ensureShareLink_idempotent:
  "(find (\<lambda>entry. file_id entry = fileId) (files s) = Some r
      \<and> truthy (share_url r) \<and> (needsRawLink \<longrightarrow> truthy (share_raw_url r))
    \<longrightarrow> ensureShareLink fileId needsRawLink response s = (Inr r, s, [])
        \<and> ensureShareLink fileId needsRawLink response'
              (fst (snd (ensureShareLink fileId needsRawLink response s)))
            = ensureShareLink fileId needsRawLink response s)
   \<and> (truthy (share_url r)
    \<longrightarrow> fst (ensureShareLink_card r response s) = r
        \<and> fst (snd (ensureShareLink_card r response s)) = s
        \<and> list_all (\<lambda>e. \<not> is_network e) (snd (snd (ensureShareLink_card r response s))))
   \<and> (ensureShareLink fileId needsRawLink response s = (Inr r', s', fx)
        \<and> truthy (share_url r')
      \<longrightarrow> ensureShareLink fileId needsRawLink response' s' = (Inr r', s', []))"
  using ensureShareLink_present [of fileId s r needsRawLink]
    ensureShareLink_card_present [of r response s]
    ensureShareLink_after_success [of fileId needsRawLink response s r' s' fx response']
  by auto

theorem ensureShareLink_idempotent_witness:
  "ensureShareLink ''f1'' True (NetworkError ''offline'') (sample_state [sample_shared])
     = (Inr sample_shared, sample_state [sample_shared], [])
   \<and> ensureShareLink ''f1'' True (Response 200 (Json sample_share_body))
       (sample_state [sample_file])
     = (Inr sample_shared, sample_state [sample_shared],
        [Fetch ''POST'' ''/api/files/f1/share'', RenderFiles, UpdateStats])
   \<and> ensureShareLink ''f1'' True (Response 200 (Json sample_share_body))
       (sample_state [sample_shared])
     = (Inr sample_shared, sample_state [sample_shared], [])
   \<and> truthy (share_url sample_shared) \<and> truthy (share_raw_url sample_shared)
   \<and> ensureShareLink_card sample_shared (NetworkError ''offline'')
       (sample_state [sample_shared])
     = (sample_shared, sample_state [sample_shared],
        [CopyToClipboard ''/s/abc'' ''Freigabelink wurde in die Zwischenablage kopiert.''])"
  using ensureShareLink_idempotent
    [where fileId = "''f1''" and s = "sample_state [sample_shared]" and r = sample_shared
       and needsRawLink = True and response = "NetworkError ''offline''"
       and response' = "NetworkError ''offline''" and r' = sample_shared
       and s' = "sample_state [sample_shared]" and fx = "[]"]
    ensureShareLink_idempotent
    [where fileId = "''f1''" and s = "sample_state [sample_file]" and r = sample_shared
       and needsRawLink = True and response = "Response 200 (Json sample_share_body)"
       and response' = "Response 200 (Json sample_share_body)" and r' = sample_shared
       and s' = "sample_state [sample_shared]"
       and fx = "[Fetch ''POST'' ''/api/files/f1/share'', RenderFiles, UpdateStats]"]
  by (simp add: ensureShareLink_def insertOrUpdateFile_def truthy_def or_opt_def ok_def
        handleUnauthorizedResponse_def size_or_0_def sample_state_def sample_file_def
        js_add_def round_double_def
        sample_shared_def sample_share_body_def Let_def ensureShareLink_card_def
        copyToClipboard_def)

section \<open>Delete and the follow-up refresh\<close>

lemma refreshFiles_card_starts_with_fetch:
  "\<exists>fx. snd (refreshFiles_card flag response s) = Fetch ''GET'' ''/api/files'' # fx"
  by (simp add: refreshFiles_card_def split: prod.splits)

text \<open>
  The card variant: a delete answered 2xx takes every record with the card's identifier
  out of the registry and then runs a full refresh on that registry, whose first effect
  is the \<open>GET /api/files\<close> request.
\<close>

lemma deleteHandler_card_refreshes:
  assumes "ok status_code"
  shows "deleteHandler_card r True (Response status_code body) refresh_response s
    = (fst (refreshFiles_card False refresh_response
              (s\<lparr>files := filter (\<lambda>entry. file_id entry \<noteq> file_id r) (files s)\<rparr>)),
       [confirm_delete r, Fetch ''DELETE'' (''/api/files/'' @ file_id r),
        ShowToast ''Datei wurde geloescht.'' SuccessToast]
       @ snd (refreshFiles_card False refresh_response
              (s\<lparr>files := filter (\<lambda>entry. file_id entry \<noteq> file_id r) (files s)\<rparr>)))"
  using assms
  by (auto simp: deleteHandler_card_def handleUnauthorizedResponse_def ok_def
      split: prod.splits)

text \<open>
  \<open>deleteFile\<close> of \<open>static/js/app.js\<close> never asks for the listing, whatever the
  answer to the delete request.
\<close>

lemma deleteFile_never_refreshes:
  "Fetch ''GET'' ''/api/files'' \<notin> set (snd (deleteFile fileId confirmed response s))"
  by (auto simp: deleteFile_def handleUnauthorizedResponse_def redirectToLogin_def
        confirm_delete_def
      split: option.splits fetch_result.splits)

text \<open>
  C2.  \<open>deleteFile\<close> of \<open>static/js/app.js\<close> on a registry that holds the one file
  \<open>f1\<close> of 10 bytes, the user confirming and the server answering 200: the record is
  removed, the page is redrawn and a toast is shown, but no listing is requested, and
  \<open>totalSize\<close> still counts the 10 bytes of the file that is gone.
\<close>

theorem deleteFile_skips_refresh:
  "deleteFile ''f1'' True (Response 200 (Json empty_body)) (sample_state [sample_file])
   = (\<lparr>files = [], capacity = 100, totalSize = Whole 10, queue = [],
       preferences = \<lparr>hideMediaDefault = False, copyUrlMode = ''view''\<rparr>\<rparr>,
      [ConfirmDialog (''Moechtest du '' @ [CHR 0x22] @ ''a.txt'' @ [CHR 0x22]
                        @ '' endgueltig loeschen?''),
       Fetch ''DELETE'' ''/api/files/f1'', RenderFiles, UpdateStats,
       ShowToast ''Datei wurde geloescht.'' SuccessToast])"
  by (simp add: deleteFile_def handleUnauthorizedResponse_def ok_def confirm_delete_def
        sample_state_def sample_file_def)

section \<open>A failed refresh changes nothing\<close>

text \<open>
  C6.  A refresh whose response is not 401 and is either outside 200..299 or has a body
  that does not parse leaves the whole state (registry, total size, capacity,
  preferences) as it was, and its only effects are the request and one error toast;
  in both variants.
\<close>

theorem refreshFiles_failure_atomic:
  assumes "status_code \<noteq> 401"
    and "\<not> ok status_code \<or> (\<exists>m. body = JsonError m)"
  shows "(\<exists>msg. refreshFiles flag (Response status_code body) s
            = (s, [Fetch ''GET'' ''/api/files'', ShowToast msg ErrorToast]))
       \<and> (\<exists>msg. refreshFiles_card flag (Response status_code body) s
            = (s, [Fetch ''GET'' ''/api/files'', ShowToast msg ErrorToast]))"
  using assms
  by (auto simp: refreshFiles_def refreshFiles_card_def refreshFiles_resume_def
        handleUnauthorizedResponse_def)

theorem refreshFiles_failure_atomic_witness:
  "(500::nat) \<noteq> 401 \<and> \<not> ok 500
   \<and> (\<exists>msg. refreshFiles True (Response 500 (JsonError ''Unexpected token''))
                (sample_state [sample_file])
              = (sample_state [sample_file],
                 [Fetch ''GET'' ''/api/files'', ShowToast msg ErrorToast]))"
  using refreshFiles_failure_atomic
    [of 500 "JsonError ''Unexpected token''" True "sample_state [sample_file]"]
  by (simp add: ok_def)

section \<open>Adding files: the 500 MiB ceiling\<close>

lemma accepted_alt: "accepted fl = filter (\<lambda>f. \<not> upload_size f > MAX_FILE_SIZE) fl"
  by (simp add: accepted_def MAX_FILE_SIZE_def not_less)

lemma oversize_toast_alt:
  "oversize_toast f =
     ShowToast (quoted (upload_name f)
                  @ '' ist groesser als 500 MB und wurde uebersprungen.'') ErrorToast"
  by (simp add: oversize_toast_def quoted_def)

lemma add_files_frame:
  "add_files fresh fl w = (w', n, fx) \<Longrightarrow>
     w' = w\<lparr>heap := heap w', queue := queue w', next_ref := next_ref w'\<rparr>"
proof (induction fl arbitrary: w w' n fx)
  case Nil
  then show ?case by simp
next
  case (Cons f rest)
  show ?case
  proof (cases "upload_size f > MAX_FILE_SIZE")
    case True
    with Cons.prems obtain n0 fx0 where "add_files fresh rest w = (w', n0, fx0)"
      by (auto split: prod.splits)
    then show ?thesis by (rule Cons.IH)
  next
    case False
    define w1 where "w1 = w\<lparr>heap := (heap w)(next_ref w \<mapsto> new_item (fresh (next_ref w)) f),
                      queue := queue w @ [next_ref w],
                      next_ref := Suc (next_ref w)\<rparr>"
    from False Cons.prems obtain n0 fx0 where "add_files fresh rest w1 = (w', n0, fx0)"
      by (auto simp: w1_def split: prod.splits)
    then have "w' = w1\<lparr>heap := heap w', queue := queue w', next_ref := next_ref w'\<rparr>"
      by (rule Cons.IH)
    then show ?thesis by (simp add: w1_def)
  qed
qed

lemma add_files_count:
  "add_files fresh fl w = (w', n, fx) \<Longrightarrow>
     n = length (accepted fl) \<and> next_ref w' = next_ref w + n
     \<and> queue w' = queue w @ [next_ref w ..< next_ref w + n]
     \<and> fx = map oversize_toast (filter (\<lambda>f. upload_size f > MAX_FILE_SIZE) fl)"
proof (induction fl arbitrary: w w' n fx)
  case Nil
  then show ?case by (simp add: accepted_alt)
next
  case (Cons f rest)
  show ?case
  proof (cases "upload_size f > MAX_FILE_SIZE")
    case True
    with Cons.prems obtain fx0 where run: "add_files fresh rest w = (w', n, fx0)"
      and fx: "fx = oversize_toast f # fx0"
      by (auto simp: oversize_toast_alt split: prod.splits)
    from Cons.IH [OF run] True fx show ?thesis
      by (simp add: accepted_alt)
  next
    case False
    define w1 where "w1 = w\<lparr>heap := (heap w)(next_ref w \<mapsto> new_item (fresh (next_ref w)) f),
                      queue := queue w @ [next_ref w],
                      next_ref := Suc (next_ref w)\<rparr>"
    from False Cons.prems obtain n0 where run: "add_files fresh rest w1 = (w', n0, fx)"
      and n: "n = Suc n0"
      by (auto simp: w1_def split: prod.splits)
    have upt: "[next_ref w ..< next_ref w + Suc n0]
                 = next_ref w # [Suc (next_ref w) ..< Suc (next_ref w) + n0]"
      using upt_conv_Cons [of "next_ref w" "next_ref w + Suc n0"] by simp
    from Cons.IH [OF run] have
      "n0 = length (accepted rest)" "next_ref w' = next_ref w1 + n0"
      "queue w' = queue w1 @ [next_ref w1 ..< next_ref w1 + n0]"
      "fx = map oversize_toast (filter (\<lambda>f. upload_size f > MAX_FILE_SIZE) rest)"
      by simp_all
    with False n upt show ?thesis
      by (simp add: accepted_alt w1_def del: upt_Suc)
  qed
qed

lemma add_files_heap_old:
  "add_files fresh fl w = (w', n, fx) \<Longrightarrow> r < next_ref w \<Longrightarrow> heap w' r = heap w r"
proof (induction fl arbitrary: w w' n fx)
  case Nil
  then show ?case by simp
next
  case (Cons f rest)
  show ?case
  proof (cases "upload_size f > MAX_FILE_SIZE")
    case True
    with Cons.prems obtain n0 fx0 where "add_files fresh rest w = (w', n0, fx0)"
      by (auto split: prod.splits)
    then show ?thesis using Cons.prems(2) by (rule Cons.IH)
  next
    case False
    define w1 where "w1 = w\<lparr>heap := (heap w)(next_ref w \<mapsto> new_item (fresh (next_ref w)) f),
                      queue := queue w @ [next_ref w],
                      next_ref := Suc (next_ref w)\<rparr>"
    from False Cons.prems obtain n0 fx0 where run: "add_files fresh rest w1 = (w', n0, fx0)"
      by (auto simp: w1_def split: prod.splits)
    have "heap w' r = heap w1 r"
      using run Cons.prems(2) by (intro Cons.IH) (auto simp: w1_def)
    then show ?thesis using Cons.prems(2) by (simp add: w1_def)
  qed
qed

lemma add_files_heap_new:
  "add_files fresh fl w = (w', n, fx) \<Longrightarrow> i < n \<Longrightarrow>
     heap w' (next_ref w + i) = Some (new_item (fresh (next_ref w + i)) (accepted fl ! i))"
proof (induction fl arbitrary: w w' n fx i)
  case Nil
  then show ?case by simp
next
  case (Cons f rest)
  show ?case
  proof (cases "upload_size f > MAX_FILE_SIZE")
    case True
    with Cons.prems obtain fx0 where run: "add_files fresh rest w = (w', n, fx0)"
      by (auto split: prod.splits)
    from Cons.IH [OF run Cons.prems(2)] True show ?thesis
      by (simp add: accepted_alt)
  next
    case False
    define w1 where "w1 = w\<lparr>heap := (heap w)(next_ref w \<mapsto> new_item (fresh (next_ref w)) f),
                      queue := queue w @ [next_ref w],
                      next_ref := Suc (next_ref w)\<rparr>"
    from False Cons.prems obtain n0 where run: "add_files fresh rest w1 = (w', n0, fx)"
      and n: "n = Suc n0"
      by (auto simp: w1_def split: prod.splits)
    show ?thesis
    proof (cases i)
      case 0
      have "heap w' (next_ref w) = heap w1 (next_ref w)"
        using run by (rule add_files_heap_old) (simp add: w1_def)
      with 0 False show ?thesis by (simp add: w1_def accepted_alt)
    next
      case (Suc j)
      with n Cons.prems(2) have "j < n0" by simp
      from Cons.IH [OF run this] Suc False show ?thesis
        by (simp add: w1_def accepted_alt)
    qed
  qed
qed


lemma add_files_heap_beyond:
  "add_files fresh fl w = (w', n, fx) \<Longrightarrow> next_ref w + n \<le> r \<Longrightarrow> heap w' r = heap w r"
proof (induction fl arbitrary: w w' n fx)
  case Nil
  then show ?case by simp
next
  case (Cons f rest)
  show ?case
  proof (cases "upload_size f > MAX_FILE_SIZE")
    case True
    with Cons.prems obtain fx0 where "add_files fresh rest w = (w', n, fx0)"
      by (auto split: prod.splits)
    then show ?thesis using Cons.prems(2) by (rule Cons.IH)
  next
    case False
    define w1 where "w1 = w\<lparr>heap := (heap w)(next_ref w \<mapsto> new_item (fresh (next_ref w)) f),
                      queue := queue w @ [next_ref w],
                      next_ref := Suc (next_ref w)\<rparr>"
    from False Cons.prems obtain n0 where run: "add_files fresh rest w1 = (w', n0, fx)"
      and n: "n = Suc n0"
      by (auto simp: w1_def split: prod.splits)
    have "heap w' r = heap w1 r"
      using run by (rule Cons.IH) (use Cons.prems(2) n in \<open>simp add: w1_def\<close>)
    then show ?thesis using Cons.prems(2) n by (simp add: w1_def)
  qed
qed

text \<open>
  C4.  \<open>addFilesToQueue\<close> appends to the queue one new item for each candidate of at
  most 500 * 1024 * 1024 bytes, in the candidates' order, each with status
  \<open>pending\<close> and progress 0, and changes no other item; no item is made for a larger
  candidate, for which an error toast is shown; and none of its effects is a request.
\<close>

theorem addFilesToQueue_size_limit:
  assumes "addFilesToQueue fresh fileList w = (w', fx)"
  shows "queue w' = queue w @ [next_ref w ..< next_ref w + length (accepted fileList)]
    \<and> (\<forall>i < length (accepted fileList).
          heap w' (next_ref w + i)
            = Some \<lparr>item_id = fresh (next_ref w + i), item_file = accepted fileList ! i,
                    status = Pending, progress = Finite 0,
                    message = ''Bereit fuer Upload''\<rparr>)
    \<and> (\<forall>r. r \<notin> set [next_ref w ..< next_ref w + length (accepted fileList)]
          \<longrightarrow> heap w' r = heap w r)
    \<and> (\<forall>f \<in> set fileList. upload_size f > 500 * 1024 * 1024 \<longrightarrow>
          ShowToast ([CHR 0x22] @ upload_name f @ [CHR 0x22]
                       @ '' ist groesser als 500 MB und wurde uebersprungen.'')
            ErrorToast \<in> set fx)
    \<and> list_all (\<lambda>e. \<not> is_network e) fx"
proof (cases "fileList = []")
  case True
  with assms show ?thesis
    by (simp add: addFilesToQueue_def accepted_alt)
next
  case False
  with assms obtain n fx0 where run: "add_files fresh fileList w = (w', n, fx0)"
    and fx: "fx = fx0 @ [RenderQueue]
                @ (if n > 0
                   then [ShowToast
                           (string_of_nat n
                              @ '' Datei(en) hinzugefuegt. Starte den Upload, wenn du bereit bist.'')
                           SuccessToast]
                   else [])"
    by (auto simp: addFilesToQueue_def split: prod.splits)
  note cnt = add_files_count [OF run]
  have q: "queue w' = queue w @ [next_ref w ..< next_ref w + length (accepted fileList)]"
    using cnt by simp
  have new: "\<forall>i < length (accepted fileList).
          heap w' (next_ref w + i)
            = Some \<lparr>item_id = fresh (next_ref w + i), item_file = accepted fileList ! i,
                    status = Pending, progress = Finite 0,
                    message = ''Bereit fuer Upload''\<rparr>"
    using add_files_heap_new [OF run] cnt by (simp add: new_item_def)
  have old: "\<forall>r. r \<notin> set [next_ref w ..< next_ref w + length (accepted fileList)]
          \<longrightarrow> heap w' r = heap w r"
  proof (intro allI impI)
    fix r assume "r \<notin> set [next_ref w ..< next_ref w + length (accepted fileList)]"
    then have "r < next_ref w \<or> next_ref w + n \<le> r"
      using cnt by auto
    then show "heap w' r = heap w r"
      using add_files_heap_old [OF run] add_files_heap_beyond [OF run] by blast
  qed
  have fx0: "fx0 = map oversize_toast (filter (\<lambda>f. upload_size f > MAX_FILE_SIZE) fileList)"
    using cnt by blast
  have toasts: "\<forall>f \<in> set fileList. upload_size f > 500 * 1024 * 1024 \<longrightarrow>
          ShowToast ([CHR 0x22] @ upload_name f @ [CHR 0x22]
                       @ '' ist groesser als 500 MB und wurde uebersprungen.'')
            ErrorToast \<in> set fx"
  proof (intro ballI impI)
    fix f assume "f \<in> set fileList" "upload_size f > 500 * 1024 * 1024"
    then have "oversize_toast f \<in> set fx0"
      unfolding fx0 by (simp add: MAX_FILE_SIZE_def)
    then show "ShowToast ([CHR 0x22] @ upload_name f @ [CHR 0x22]
                       @ '' ist groesser als 500 MB und wurde uebersprungen.'')
            ErrorToast \<in> set fx"
      unfolding fx by (simp add: oversize_toast_def)
  qed
  have "list_all (\<lambda>e. \<not> is_network e) fx0"
    unfolding fx0 by (simp add: list_all_iff oversize_toast_def)
  then have net: "list_all (\<lambda>e. \<not> is_network e) fx"
    unfolding fx by simp
  from q new old toasts net show ?thesis by blast
qed

lemma sample_add_run:
  "addFilesToQueue sample_fresh [sample_big, sample_small] sample_world
     = (sample_added,
        [ShowToast ([CHR 0x22] @ ''big.iso'' @ [CHR 0x22]
                       @ '' ist groesser als 500 MB und wurde uebersprungen.'') ErrorToast,
         RenderQueue,
         ShowToast ''1 Datei(en) hinzugefuegt. Starte den Upload, wenn du bereit bist.''
           SuccessToast])"
  by (simp add: addFilesToQueue_def sample_world_def sample_added_def sample_big_def
        sample_item_def sample_fresh_def sample_small_def MAX_FILE_SIZE_def new_item_def
        quoted_def string_of_nat.simps [of 0] string_of_nat.simps [of "Suc 0"])

theorem addFilesToQueue_size_limit_witness:
  "addFilesToQueue sample_fresh [sample_big, sample_small] sample_world
     = (sample_added,
        [ShowToast ([CHR 0x22] @ ''big.iso'' @ [CHR 0x22]
                       @ '' ist groesser als 500 MB und wurde uebersprungen.'') ErrorToast,
         RenderQueue,
         ShowToast ''1 Datei(en) hinzugefuegt. Starte den Upload, wenn du bereit bist.''
           SuccessToast])
   \<and> queue sample_added = [0]
   \<and> heap sample_added 0
       = Some \<lparr>item_id = ''id0'', item_file = sample_small, status = Pending,
               progress = Finite 0, message = ''Bereit fuer Upload''\<rparr>"
  using addFilesToQueue_size_limit [OF sample_add_run] sample_add_run
  by (simp add: sample_added_def sample_item_def)


section \<open>Starting the uploads\<close>

lemma begin_upload_fold:
  "(\<lambda>item. item\<lparr>status := Uploading, progress := Finite 0,
                       message := ''Upload laeuft...''\<rparr>) = begin_upload"
  by (simp add: fun_eq_iff begin_upload_def)

lemma uploadQueueItem_heap:
  "heap (fst (uploadQueueItem x w)) r
     = (if r = x then map_option begin_upload (heap w x) else heap w r)"
  by (simp add: uploadQueueItem_def update_item_def begin_upload_fold)

lemma uploadQueueItem_status_at:
  "status_at w x = Some Pending \<Longrightarrow>
   status_at (fst (uploadQueueItem x w)) r
     = (if r = x then Some Uploading else status_at w r)"
  by (auto simp: status_at_def uploadQueueItem_heap begin_upload_def)

lemma upload_pending_heap:
  "heap (fst (upload_pending xs w)) r
     = (if r \<in> set xs \<and> status_at w r = Some Pending
        then map_option begin_upload (heap w r) else heap w r)"
proof (induction xs arbitrary: w)
  case Nil
  then show ?case by simp
next
  case (Cons x xs)
  show ?case
  proof (cases "status_at w x = Some Pending")
    case False
    then show ?thesis using Cons.IH [of w] by auto
  next
    case True
    define w1 where "w1 = fst (uploadQueueItem x w)"
    have step: "fst (upload_pending (x # xs) w) = fst (upload_pending xs w1)"
      using True by (simp add: w1_def split: prod.splits)
    have st: "status_at w1 r = (if r = x then Some Uploading else status_at w r)"
      unfolding w1_def using True by (rule uploadQueueItem_status_at)
    have hp: "heap w1 r = (if r = x then map_option begin_upload (heap w x) else heap w r)"
      unfolding w1_def by (rule uploadQueueItem_heap)
    show ?thesis
      unfolding step using Cons.IH [of w1] st hp True by auto
  qed
qed

lemma upload_pending_sends:
  "XhrSend ''POST'' ''/api/upload'' r \<in> set (snd (upload_pending xs w))
     \<longleftrightarrow> r \<in> set xs \<and> status_at w r = Some Pending"
proof (induction xs arbitrary: w)
  case Nil
  then show ?case by simp
next
  case (Cons x xs)
  show ?case
  proof (cases "status_at w x = Some Pending")
    case False
    then show ?thesis using Cons.IH [of w] by auto
  next
    case True
    define w1 where "w1 = fst (uploadQueueItem x w)"
    have step: "snd (upload_pending (x # xs) w)
        = [UpdateQueueVisual x, XhrSend ''POST'' ''/api/upload'' x] @ snd (upload_pending xs w1)"
      using True by (simp add: w1_def uploadQueueItem_def split: prod.splits)
    have st: "status_at w1 r = (if r = x then Some Uploading else status_at w r)"
      unfolding w1_def using True by (rule uploadQueueItem_status_at)
    show ?thesis
      unfolding step using Cons.IH [of w1] st True by auto
  qed
qed

lemma upload_pending_frame:
  "fst (upload_pending xs w)
     = w\<lparr>heap := heap (fst (upload_pending xs w)),
          inflight := inflight (fst (upload_pending xs w))\<rparr>"
proof (induction xs arbitrary: w)
  case Nil
  then show ?case by simp
next
  case (Cons x xs)
  show ?case
  proof (cases "status_at w x = Some Pending")
    case False
    then show ?thesis using Cons.IH [of w] by simp
  next
    case True
    define w1 where "w1 = fst (uploadQueueItem x w)"
    have step: "fst (upload_pending (x # xs) w) = fst (upload_pending xs w1)"
      using True by (simp add: w1_def split: prod.splits)
    have "w1 = w\<lparr>heap := heap w1, inflight := inflight w1\<rparr>"
      by (simp add: w1_def uploadQueueItem_def update_item_def)
    then show ?thesis
      unfolding step using Cons.IH [of w1]
      by (metis (no_types, lifting) world.surjective world.update_convs(1,3) world.select_convs(1,3))
  qed
qed


text \<open>
  C9.  The start button's handler: when no item of the queue is \<open>pending\<close> it shows
  an informational toast and does nothing else; otherwise every item of the queue that
  is \<open>pending\<close> gets status \<open>uploading\<close>, progress 0 and the running message, and
  its request is sent; a request is sent for no other item, every other item stays as
  it is, and nothing but the items and the set of open requests changes.
\<close>

theorem onStartUpload_spec:
  "(\<not> (\<exists>r \<in> set (queue w). status_at w r = Some Pending)
      \<longrightarrow> onStartUpload w = (w, [ShowToast ''Keine Dateien in der Warteschlange.'' InfoToast]))
   \<and> ((\<exists>r \<in> set (queue w). status_at w r = Some Pending)
      \<longrightarrow> heap (fst (onStartUpload w)) r
            = (if r \<in> set (queue w) \<and> status_at w r = Some Pending
               then map_option
                      (\<lambda>item. item\<lparr>status := Uploading, progress := Finite 0,
                                    message := ''Upload laeuft...''\<rparr>) (heap w r)
               else heap w r)
          \<and> (XhrSend ''POST'' ''/api/upload'' r \<in> set (snd (onStartUpload w))
               \<longleftrightarrow> r \<in> set (queue w) \<and> status_at w r = Some Pending)
          \<and> fst (onStartUpload w)
              = w\<lparr>heap := heap (fst (onStartUpload w)),
                   inflight := inflight (fst (onStartUpload w))\<rparr>)"
proof (cases "\<exists>r \<in> set (queue w). status_at w r = Some Pending")
  case False
  then show ?thesis
    by (simp add: onStartUpload_def list_ex_iff)
next
  case True
  then have "onStartUpload w = upload_pending (queue w) w"
    by (simp add: onStartUpload_def list_ex_iff)
  with True show ?thesis
    using upload_pending_heap [of "queue w" w r] upload_pending_sends [of r "queue w" w]
      upload_pending_frame [of "queue w" w]
    by (simp add: begin_upload_fold)
qed

theorem onStartUpload_spec_witness:
  "onStartUpload sample_world
     = (sample_world, [ShowToast ''Keine Dateien in der Warteschlange.'' InfoToast])
   \<and> (\<exists>r \<in> set (queue sample_added). status_at sample_added r = Some Pending)
   \<and> heap (fst (onStartUpload sample_added)) 0
       = Some (sample_item Uploading 0 ''Upload laeuft...'')
   \<and> XhrSend ''POST'' ''/api/upload'' 0 \<in> set (snd (onStartUpload sample_added))"
  using onStartUpload_spec [of sample_world 0] onStartUpload_spec [of sample_added 0]
  by (simp add: sample_world_def sample_added_def sample_item_def status_at_def)

section \<open>Removing a queue item\<close>

text \<open>
  C7.  The remove button of an item: when the item is \<open>pending\<close>, the queue loses
  every entry that has the item's identifier, so the item itself, and the queue is
  redrawn; in every other status the state stays as it is and an informational toast
  is shown.  For an item of the queue, it is gone afterwards exactly when it was
  \<open>pending\<close>.
\<close>

theorem onRemoveClick_iff:
  assumes "heap w r = Some item"
  shows "(status item = Pending \<longrightarrow>
            onRemoveClick r w
              = (w\<lparr>queue := filter (\<lambda>q. item_id_at w q \<noteq> Some (item_id item)) (queue w)\<rparr>,
                 [RenderQueue])
            \<and> r \<notin> set (queue (fst (onRemoveClick r w))))
       \<and> (status item \<noteq> Pending \<longrightarrow>
            onRemoveClick r w
              = (w, [ShowToast ''Nur wartende Dateien koennen entfernt werden.'' InfoToast]))
       \<and> (r \<in> set (queue w) \<longrightarrow>
            (r \<notin> set (queue (fst (onRemoveClick r w))) \<longleftrightarrow> status item = Pending))"
  using assms by (auto simp: onRemoveClick_def status_at_def item_id_at_def)

theorem onRemoveClick_iff_witness:
  "heap sample_added 0 = Some (sample_item Pending 0 ''Bereit fuer Upload'')
   \<and> onRemoveClick 0 sample_added = (sample_added\<lparr>queue := []\<rparr>, [RenderQueue])
   \<and> heap sample_uploading 0 = Some (sample_item Uploading 0 ''Upload laeuft...'')
   \<and> onRemoveClick 0 sample_uploading
       = (sample_uploading,
          [ShowToast ''Nur wartende Dateien koennen entfernt werden.'' InfoToast])"
  using onRemoveClick_iff [of sample_added 0 "sample_item Pending 0 ''Bereit fuer Upload''"]
    onRemoveClick_iff [of sample_uploading 0 "sample_item Uploading 0 ''Upload laeuft...''"]
  by (simp add: sample_world_def sample_added_def sample_uploading_def sample_item_def
        item_id_at_def)

section \<open>An upload answered 401\<close>

text \<open>
  C8.  The \<open>load\<close> handler of an upload whose status is 401 redirects to \<open>/login\<close>
  and changes nothing: delivered to a request in flight, it leaves every item (status,
  progress and message), the queue, the registry, the total size, the capacity and the
  preferences as they were.
\<close>

theorem onLoad_401:
  "onLoad r 401 parsed w = (w, [Redirect ''/login''])
   \<and> (r \<in> set (inflight w) \<longrightarrow>
        (\<exists>w'. fire (XhrLoad r 401 parsed) w = Some (w', [Redirect ''/login''])
           \<and> heap w' = heap w \<and> queue w' = queue w \<and> files w' = files w
           \<and> totalSize w' = totalSize w \<and> capacity w' = capacity w
           \<and> preferences w' = preferences w))"
  by (simp add: onLoad_def redirectToLogin_def)

theorem onLoad_401_witness:
  "0 \<in> set (inflight sample_uploading)
   \<and> fire (XhrLoad 0 401 (JsonError ''Unexpected token'')) sample_uploading
       = Some (sample_uploading\<lparr>inflight := []\<rparr>, [Redirect ''/login''])
   \<and> heap (sample_uploading\<lparr>inflight := []\<rparr>) 0
       = Some (sample_item Uploading 0 ''Upload laeuft...'')"
  using onLoad_401 [of 0 "JsonError ''Unexpected token''" sample_uploading]
  by (simp add: sample_uploading_def sample_added_def sample_world_def onLoad_def
        redirectToLogin_def)


section \<open>The status of a queue item only moves forward\<close>

lemma initial_inv: "initial w \<Longrightarrow> queue_inv w"
  by (simp add: initial_def queue_inv_def)

lemma refreshFiles_resume_frame:
  "refreshFiles_resume apply_listing flag response w = (w', fx) \<Longrightarrow>
     heap w' = heap w \<and> inflight w' = inflight w \<and> next_ref w' = next_ref w"
  by (auto simp: refreshFiles_resume_def apply_listing_def
      split: fetch_result.splits json_result.splits if_splits)

lemma insertOrUpdateFile_frame:
  "heap (insertOrUpdateFile f w) = heap w \<and> inflight (insertOrUpdateFile f w) = inflight w
   \<and> next_ref (insertOrUpdateFile f w) = next_ref w"
  by (simp add: insertOrUpdateFile_def Let_def)

lemma onLoad_frame:
  "onLoad r sc parsed w = (w', fx) \<Longrightarrow>
     inflight w' = inflight w \<and> next_ref w' = next_ref w
     \<and> (\<forall>x. x \<noteq> r \<longrightarrow> heap w' x = heap w x)
     \<and> (heap w r = None \<longrightarrow> heap w' r = None)
     \<and> (\<forall>item. heap w r = Some item \<longrightarrow>
           (\<exists>item'. heap w' r = Some item'
              \<and> (status item' = status item \<or> status item' = Success \<or> status item' = Error)))"
  by (auto simp: onLoad_def update_item_def scheduleQueueRemoval_def Let_def
        insertOrUpdateFile_frame
      split: json_result.splits if_splits option.splits)

lemma onError_frame:
  "onError r w = (w', fx) \<Longrightarrow>
     inflight w' = inflight w \<and> next_ref w' = next_ref w
     \<and> (\<forall>x. x \<noteq> r \<longrightarrow> heap w' x = heap w x)
     \<and> (heap w r = None \<longrightarrow> heap w' r = None)
     \<and> (\<forall>item. heap w r = Some item \<longrightarrow>
           (\<exists>item'. heap w' r = Some item' \<and> status item' = Error))"
  by (auto simp: onError_def update_item_def)

lemma onProgress_frame:
  "onProgress r lc a b w = (w', fx) \<Longrightarrow>
     inflight w' = inflight w \<and> next_ref w' = next_ref w
     \<and> (\<forall>x. status_at w' x = status_at w x)
     \<and> (\<forall>x. heap w' x = None \<longleftrightarrow> heap w x = None)"
  by (auto simp: onProgress_def update_item_def status_at_def option.map_comp comp_def
      split: if_splits)

lemma onRemovalTimer_frame:
  "onRemovalTimer r w = (w', fx) \<Longrightarrow>
     inflight w' = inflight w \<and> next_ref w' = next_ref w \<and> heap w' = heap w"
  by (auto simp: onRemovalTimer_def split: option.splits if_splits)

lemma onRemoveClick_frame:
  "onRemoveClick r w = (w', fx) \<Longrightarrow>
     inflight w' = inflight w \<and> next_ref w' = next_ref w \<and> heap w' = heap w"
  by (auto simp: onRemoveClick_def split: option.splits if_splits)


lemma addFilesToQueue_frame:
  assumes "addFilesToQueue fresh fl w = (w', fx)"
  shows "inflight w' = inflight w \<and> next_ref w \<le> next_ref w'
     \<and> (\<forall>r < next_ref w. heap w' r = heap w r)
     \<and> (\<forall>r \<ge> next_ref w'. heap w' r = heap w r)"
proof (cases "fl = []")
  case True
  with assms show ?thesis by (simp add: addFilesToQueue_def)
next
  case False
  with assms obtain n fx0 where run: "add_files fresh fl w = (w', n, fx0)"
    by (auto simp: addFilesToQueue_def split: prod.splits)
  have "inflight w' = inflight w"
    using add_files_frame [OF run]
    by (metis world.select_convs(3) world.surjective world.update_convs(1,2) app_state.update_convs(4))
  moreover have "next_ref w' = next_ref w + n"
    using add_files_count [OF run] by simp
  ultimately show ?thesis
    using add_files_heap_old [OF run] add_files_heap_beyond [OF run] by simp
qed

lemma uploadQueueItem_inv:
  assumes "queue_inv w" and "status_at w x = Some Pending"
  shows "queue_inv (fst (uploadQueueItem x w))"
proof -
  have "x \<notin> set (inflight w)"
    using assms by (auto simp: queue_inv_def)
  with assms show ?thesis
    by (auto simp: queue_inv_def uploadQueueItem_def update_item_def status_at_def)
qed

lemma upload_pending_inv:
  "queue_inv w \<Longrightarrow> queue_inv (fst (upload_pending xs w))"
proof (induction xs arbitrary: w)
  case Nil
  then show ?case by simp
next
  case (Cons x xs)
  show ?case
  proof (cases "status_at w x = Some Pending")
    case False
    with Cons show ?thesis by simp
  next
    case True
    have "fst (upload_pending (x # xs) w) = fst (upload_pending xs (fst (uploadQueueItem x w)))"
      using True by (simp split: prod.splits)
    then show ?thesis
      using Cons.IH [OF uploadQueueItem_inv [OF Cons.prems True]] by simp
  qed
qed

lemma inv_after_completion:
  assumes inv: "queue_inv w" and r: "r \<in> set (inflight w)"
    and fl: "inflight w' = remove1 r (inflight w)" and nx: "next_ref w' = next_ref w"
    and others: "\<forall>x. x \<noteq> r \<longrightarrow> heap w' x = heap w x"
    and none: "heap w r = None \<longrightarrow> heap w' r = None"
  shows "queue_inv w'"
proof -
  have d: "distinct (inflight w)"
    using inv by (simp add: queue_inv_def)
  have "status_at w' x = Some Uploading" if "x \<in> set (inflight w')" for x
  proof -
    from that fl d have "x \<noteq> r" "x \<in> set (inflight w)"
      by (auto dest: notin_set_remove1)
    with inv others show ?thesis
      by (simp add: queue_inv_def status_at_def)
  qed
  moreover have "heap w' x = None" if "next_ref w' \<le> x" for x
  proof -
    from that nx inv have "heap w x = None"
      by (simp add: queue_inv_def)
    with others none show ?thesis
      by (cases "x = r") auto
  qed
  ultimately show ?thesis
    using d fl by (simp add: queue_inv_def)
qed

lemma fire_inv:
  assumes "queue_inv w" and "fire e w = Some (w', fx)"
  shows "queue_inv w'"
proof (cases e)
  case (AddFiles fresh fl)
  with assms have run: "addFilesToQueue fresh fl w = (w', fx)" by simp
  note fr = addFilesToQueue_frame [OF run]
  have old: "heap w' r = heap w r" if "heap w r \<noteq> None" for r
  proof -
    from that assms(1) have "r < next_ref w"
      by (auto simp: queue_inv_def not_le [symmetric])
    with fr show ?thesis by simp
  qed
  have "status_at w' r = Some Uploading" if "r \<in> set (inflight w)" for r
  proof -
    from that assms(1) have st: "status_at w r = Some Uploading"
      by (simp add: queue_inv_def)
    then have "heap w r \<noteq> None" by (auto simp: status_at_def)
    from old [OF this] st show ?thesis by (simp add: status_at_def)
  qed
  moreover have "heap w' r = None" if "next_ref w' \<le> r" for r
  proof -
    from that fr have "heap w' r = heap w r" "next_ref w \<le> r" by auto
    with assms(1) show ?thesis by (simp add: queue_inv_def)
  qed
  ultimately show ?thesis
    using assms(1) fr by (simp add: queue_inv_def)
next
  case StartUploadClick
  with assms have "w' = fst (onStartUpload w)" by simp
  then show ?thesis
    using assms(1) upload_pending_inv [of w "queue w"]
    by (auto simp: onStartUpload_def Let_def)
next
  case (XhrProgress r lc a b)
  with assms have "onProgress r lc a b w = (w', fx)"
    by (simp split: if_splits)
  from onProgress_frame [OF this] assms(1) show ?thesis
    by (simp add: queue_inv_def)
next
  case (XhrLoad r sc parsed)
  with assms have r: "r \<in> set (inflight w)"
    and run: "onLoad r sc parsed (w\<lparr>inflight := remove1 r (inflight w)\<rparr>) = (w', fx)"
    by (simp_all split: if_splits)
  from onLoad_frame [OF run] show ?thesis
    by (intro inv_after_completion [OF assms(1) r]) simp_all
next
  case (XhrError r)
  with assms have r: "r \<in> set (inflight w)"
    and run: "onError r (w\<lparr>inflight := remove1 r (inflight w)\<rparr>) = (w', fx)"
    by (simp_all split: if_splits)
  from onError_frame [OF run] show ?thesis
    by (intro inv_after_completion [OF assms(1) r]) simp_all
next
  case (RemovalTimer r)
  with assms have "onRemovalTimer r (w\<lparr>timers := remove1 r (timers w)\<rparr>) = (w', fx)"
    by (simp split: if_splits)
  from onRemovalTimer_frame [OF this] assms(1) show ?thesis
    by (simp add: queue_inv_def status_at_def)
next
  case (RemoveClick r)
  with assms have "onRemoveClick r w = (w', fx)"
    by (simp split: if_splits)
  from onRemoveClick_frame [OF this] assms(1) show ?thesis
    by (simp add: queue_inv_def status_at_def)
next
  case RefreshClick
  with assms show ?thesis
    by (auto simp: queue_inv_def status_at_def)
next
  case (ListingArrived i response)
  with assms have "refreshFiles_resume apply_listing (fetching w ! i) response
                   (w\<lparr>fetching := take i (fetching w) @ drop (Suc i) (fetching w)\<rparr>) = (w', fx)"
    by (simp split: if_splits)
  from refreshFiles_resume_frame [OF this] assms(1) show ?thesis
    by (simp add: queue_inv_def status_at_def)
qed


lemma fire_transition:
  assumes inv: "queue_inv w" and step: "fire e w = Some (w', fx)"
    and item: "heap w r = Some item"
  shows "\<exists>item'. heap w' r = Some item' \<and> allowed (status item) (status item')"
proof (cases e)
  case (AddFiles fresh fl)
  with step have run: "addFilesToQueue fresh fl w = (w', fx)" by simp
  from item inv have "r < next_ref w"
    by (auto simp: queue_inv_def not_le [symmetric])
  with addFilesToQueue_frame [OF run] item show ?thesis
    by (simp add: allowed_def)
next
  case StartUploadClick
  with step have w': "w' = fst (onStartUpload w)" by simp
  show ?thesis
  proof (cases "list_ex (\<lambda>item. status_at w item = Some Pending) (queue w)")
    case False
    with w' item show ?thesis
      by (simp add: onStartUpload_def allowed_def)
  next
    case True
    with w' have "w' = fst (upload_pending (queue w) w)"
      by (simp add: onStartUpload_def)
    with upload_pending_heap [of "queue w" w r] item show ?thesis
      by (auto simp: allowed_def begin_upload_def status_at_def)
  qed
next
  case (XhrProgress x lc a b)
  with step have "onProgress x lc a b w = (w', fx)"
    by (simp split: if_splits)
  from onProgress_frame [OF this] have "status_at w' r = status_at w r"
    by simp
  with item show ?thesis
    by (auto simp: status_at_def allowed_def)
next
  case (XhrLoad x sc parsed)
  with step have x: "x \<in> set (inflight w)"
    and run: "onLoad x sc parsed (w\<lparr>inflight := remove1 x (inflight w)\<rparr>) = (w', fx)"
    by (simp_all split: if_splits)
  show ?thesis
  proof (cases "r = x")
    case False
    with onLoad_frame [OF run] item show ?thesis
      by (simp add: allowed_def)
  next
    case True
    with x inv item have "status item = Uploading"
      by (auto simp: queue_inv_def status_at_def)
    with onLoad_frame [OF run] item True show ?thesis
      by (auto simp: allowed_def)
  qed
next
  case (XhrError x)
  with step have x: "x \<in> set (inflight w)"
    and run: "onError x (w\<lparr>inflight := remove1 x (inflight w)\<rparr>) = (w', fx)"
    by (simp_all split: if_splits)
  show ?thesis
  proof (cases "r = x")
    case False
    with onError_frame [OF run] item show ?thesis
      by (simp add: allowed_def)
  next
    case True
    with x inv item have "status item = Uploading"
      by (auto simp: queue_inv_def status_at_def)
    with onError_frame [OF run] item True show ?thesis
      by (auto simp: allowed_def)
  qed
next
  case (RemovalTimer x)
  with step have "onRemovalTimer x (w\<lparr>timers := remove1 x (timers w)\<rparr>) = (w', fx)"
    by (simp split: if_splits)
  from onRemovalTimer_frame [OF this] item show ?thesis
    by (simp add: allowed_def)
next
  case (RemoveClick x)
  with step have "onRemoveClick x w = (w', fx)"
    by (simp split: if_splits)
  from onRemoveClick_frame [OF this] item show ?thesis
    by (simp add: allowed_def)
next
  case RefreshClick
  with step item show ?thesis
    by (auto simp: allowed_def)
next
  case (ListingArrived i response)
  with step have "refreshFiles_resume apply_listing (fetching w ! i) response
                   (w\<lparr>fetching := take i (fetching w) @ drop (Suc i) (fetching w)\<rparr>) = (w', fx)"
    by (simp split: if_splits)
  from refreshFiles_resume_frame [OF this] item show ?thesis
    by (simp add: allowed_def)
qed

lemma run_inv: "queue_inv w \<Longrightarrow> run es w = Some w' \<Longrightarrow> queue_inv w'"
proof (induction es arbitrary: w)
  case Nil
  then show ?case by simp
next
  case (Cons e es)
  from Cons.prems(2) obtain w1 fx where f: "fire e w = Some (w1, fx)" and r: "run es w1 = Some w'"
    by (auto split: option.splits)
  from Cons.IH [OF fire_inv [OF Cons.prems(1) f] r] show ?case .
qed

lemma run_never_pending:
  "queue_inv w \<Longrightarrow> run es w = Some w' \<Longrightarrow> heap w r = Some item \<Longrightarrow>
     status item \<noteq> Pending \<Longrightarrow>
     \<exists>item'. heap w' r = Some item' \<and> status item' \<noteq> Pending"
proof (induction es arbitrary: w item)
  case Nil
  then show ?case by simp
next
  case (Cons e es)
  from Cons.prems(2) obtain w1 fx where f: "fire e w = Some (w1, fx)" and r: "run es w1 = Some w'"
    by (auto split: option.splits)
  from fire_transition [OF Cons.prems(1) f Cons.prems(3)] obtain item1
    where i1: "heap w1 r = Some item1" and al: "allowed (status item) (status item1)"
    by blast
  from al Cons.prems(4) have "status item1 \<noteq> Pending"
    by (auto simp: allowed_def)
  from Cons.IH [OF fire_inv [OF Cons.prems(1) f] r i1 this] show ?case .
qed

text \<open>
  C3.  In every state \<open>w\<close> that a sequence of events (adding files, the start button,
  progress, load and error events of the requests, removal timers, remove buttons,
  refreshes) leads to from a page without queue items, an item keeps existing under any
  further event and its status either stays or moves from \<open>pending\<close> to
  \<open>uploading\<close> or from \<open>uploading\<close> to \<open>success\<close> or \<open>error\<close>; and after any
  further sequence of events an item that was not \<open>pending\<close> is still not
  \<open>pending\<close>.
\<close>

theorem status_monotone:
  assumes "initial w0" and "run es w0 = Some w" and "heap w r = Some item"
  shows "(fire e w = Some (w', fx) \<longrightarrow>
            (\<exists>item'. heap w' r = Some item'
               \<and> (status item' = status item
                   \<or> (status item = Pending \<and> status item' = Uploading)
                   \<or> (status item = Uploading
                        \<and> (status item' = Success \<or> status item' = Error)))))
       \<and> (run es' w = Some w'' \<and> status item \<noteq> Pending \<longrightarrow>
            (\<exists>item''. heap w'' r = Some item'' \<and> status item'' \<noteq> Pending))"
proof -
  have inv: "queue_inv w"
    using run_inv [OF initial_inv [OF assms(1)] assms(2)] .
  show ?thesis
    using fire_transition [OF inv _ assms(3), of e w' fx]
      run_never_pending [OF inv _ assms(3), of es' w'']
    by (auto simp: allowed_def)
qed


lemma sample_start_run:
  "onStartUpload sample_added
     = (sample_uploading, [UpdateQueueVisual 0, XhrSend ''POST'' ''/api/upload'' 0])"
  by (simp add: onStartUpload_def uploadQueueItem_def update_item_def status_at_def
        sample_added_def sample_uploading_def sample_world_def sample_item_def)

lemma sample_run:
  "run [AddFiles sample_fresh [sample_big, sample_small], StartUploadClick]
     sample_world = Some sample_uploading"
  by (simp only: run.simps fire.simps sample_add_run sample_start_run option.case prod.case)

lemma sample_fail_run:
  "fire (XhrLoad 0 500 (JsonError ''Unexpected token'')) sample_uploading
     = Some (sample_failed,
             [UpdateQueueVisual 0, ShowToast ''Der Upload ist fehlgeschlagen.'' ErrorToast])"
  by (simp add: onLoad_def update_item_def sample_failed_def sample_uploading_def
        sample_added_def sample_world_def sample_item_def)

theorem status_monotone_witness:
  "initial sample_world
   \<and> run [AddFiles sample_fresh [sample_big, sample_small], StartUploadClick]
       sample_world = Some sample_uploading
   \<and> heap sample_uploading 0 = Some (sample_item Uploading 0 ''Upload laeuft...'')
   \<and> fire (XhrLoad 0 500 (JsonError ''Unexpected token'')) sample_uploading
       = Some (sample_failed,
               [UpdateQueueVisual 0, ShowToast ''Der Upload ist fehlgeschlagen.'' ErrorToast])
   \<and> run [XhrLoad 0 500 (JsonError ''Unexpected token'')] sample_uploading = Some sample_failed
   \<and> (\<exists>item'. heap sample_failed 0 = Some item' \<and> status item' = Error)"
proof -
  have i: "initial sample_world"
    by (simp add: initial_def sample_world_def)
  have h: "heap sample_uploading 0 = Some (sample_item Uploading 0 ''Upload laeuft...'')"
    by (simp add: sample_uploading_def)
  have r2: "run [XhrLoad 0 500 (JsonError ''Unexpected token'')] sample_uploading
              = Some sample_failed"
    by (simp only: run.simps sample_fail_run option.case prod.case)
  from status_monotone [OF i sample_run h,
      of "XhrLoad 0 500 (JsonError ''Unexpected token'')" sample_failed
         "[UpdateQueueVisual 0, ShowToast ''Der Upload ist fehlgeschlagen.'' ErrorToast]"
         "[XhrLoad 0 500 (JsonError ''Unexpected token'')]" sample_failed]
  show ?thesis
    using i sample_run h sample_fail_run r2
    by (simp add: sample_failed_def sample_item_def)
qed


section \<open>The unit of a formatted byte count\<close>

lemma ln_1024: "ln (1024::real) = 10 * ln 2"
proof -
  have "ln (1024::real) = ln (2 ^ 10)" by simp
  also have "\<dots> = 10 * ln 2" by (simp only: ln_realpow of_nat_numeral)
  finally show ?thesis .
qed

lemma exponent_of_half: "exponent_of (1 / 2) = - 1"
proof -
  have "ln (1 / 2 :: real) = - ln 2"
    by (simp add: ln_div)
  then have "ln (1 / 2 :: real) / ln 1024 = - (1 / 10)"
    by (simp add: ln_1024)
  then have "\<lfloor>ln (1 / 2 :: real) / ln 1024\<rfloor> = - 1"
    by simp
  then show ?thesis
    by (simp add: exponent_of_def units_def)
qed

lemma exponent_of_range:
  assumes "1 \<le> b"
  shows "0 \<le> exponent_of b \<and> exponent_of b \<le> 4"
proof -
  have "0 \<le> ln b" using assms by simp
  moreover have "0 < ln (1024::real)" by simp
  ultimately have "0 \<le> ln b / ln 1024" by simp
  then have "0 \<le> \<lfloor>ln b / ln 1024\<rfloor>" by simp
  then show ?thesis by (simp add: exponent_of_def units_def)
qed

lemma string_of_nat_512: "string_of_nat 512 = ''512''"
  by (simp add: string_of_nat.simps [of 512] string_of_nat.simps [of 51]
        string_of_nat.simps [of 5])

lemma exponent_of_1536: "exponent_of 1536 = 1"
proof -
  have "\<lfloor>log 1024 (1536::real)\<rfloor> = 1"
    by (subst floor_log_eq_powr_iff) simp_all
  then show ?thesis
    by (simp add: exponent_of_def log_def units_def)
qed

text \<open>
  C10, as the claim states it, fails for a positive number below 1: for half a byte the
  logarithm is negative, the exponent is \<open>-1\<close>, the lookup in the unit table misses
  and the result ends in \<open>undefined\<close>.
\<close>

theorem formatBytes_half:
  "exponent_of (1 / 2) = - 1
   \<and> formatBytes (\<lambda>x. []) (Finite (1 / 2)) = ''512 undefined''"
  by (simp add: formatBytes_def exponent_of_half pow1024_def unit_at_def toFixed_def
        string_of_nat_512 units_def)

text \<open>
  C10, amended.  \<open>formatBytes\<close> gives \<open>0 B\<close> for \<open>NaN\<close>, for both infinities and
  for every finite number that is not positive; for every finite number of at least 1,
  so for every positive whole byte count, the exponent is one of 0, 1, 2, 3, 4 and the
  result is the number divided by that power of 1024, printed with no or one decimal,
  a space, and the unit at that place of the table B, KB, MB, GB, TB.
\<close>

theorem formatBytes_units:
  "formatBytes toString NaN = ''0 B''
   \<and> formatBytes toString PosInfinity = ''0 B''
   \<and> formatBytes toString NegInfinity = ''0 B''
   \<and> (b \<le> 0 \<longrightarrow> formatBytes toString (Finite b) = ''0 B'')
   \<and> (1 \<le> b \<longrightarrow>
        (\<exists>i < 5. exponent_of b = int i
           \<and> formatBytes toString (Finite b)
               = toFixed toString (b / 1024 ^ i) (if b / 1024 ^ i \<ge> 10 \<or> i = 0 then 0 else 1)
                   @ '' '' @ [''B'', ''KB'', ''MB'', ''GB'', ''TB''] ! i))"
proof -
  have "\<exists>i < 5. exponent_of b = int i
           \<and> formatBytes toString (Finite b)
               = toFixed toString (b / 1024 ^ i) (if b / 1024 ^ i \<ge> 10 \<or> i = 0 then 0 else 1)
                   @ '' '' @ [''B'', ''KB'', ''MB'', ''GB'', ''TB''] ! i" if b: "1 \<le> b"
  proof -
    define i where "i = nat (exponent_of b)"
    from exponent_of_range [OF b] have e: "exponent_of b = int i" and i: "i < 5"
      by (simp_all add: i_def nat_less_iff)
    from b have "\<not> b \<le> 0" by simp
    then have "formatBytes toString (Finite b)
               = toFixed toString (b / 1024 ^ i) (if b / 1024 ^ i \<ge> 10 \<or> i = 0 then 0 else 1)
                   @ '' '' @ [''B'', ''KB'', ''MB'', ''GB'', ''TB''] ! i"
      using i by (simp add: formatBytes_def e pow1024_def unit_at_def units_def Let_def)
    with e i show ?thesis by blast
  qed
  then show ?thesis
    by (simp add: formatBytes_def)
qed

theorem formatBytes_units_witness:
  "(1::real) \<le> 1536 \<and> exponent_of 1536 = 1
   \<and> formatBytes (\<lambda>x. []) (Finite 1536) = ''1.5 KB''
   \<and> formatBytes (\<lambda>x. []) (Finite 0) = ''0 B''"
  using formatBytes_units [of "\<lambda>x. []" 1536] formatBytes_units [of "\<lambda>x. []" 0]
  by (simp add: exponent_of_1536 toFixed_def string_of_nat.simps [of "Suc 0"]
        string_of_nat.simps [of 5] string_of_nat.simps [of 15])


end
